theory Spec2Isabelle
  imports Main "HOL-Library.Monad_Syntax"
begin

section \<open>The DMCA takedown route (src/app/api/dmca/route.ts)\<close>

text \<open>
  The route handler keeps one piece of process-wide state, the table \<open>rateLimitMap\<close>, and
  talks to three tables of the store through Prisma: \<open>chapterLink\<close>, \<open>dmcaRequest\<close> and
  \<open>linkSubmissionAudit\<close>. Both are passed explicitly here: a handler takes the table and the
  store and returns them updated, next to its HTTP response. What the handler reads from
  outside (the clock, the identifier the store gives a new row, the string formats checked by
  the validation library, and whether a store call fails) is collected in an environment.

  Strings are lists of characters, a character being a code unit below 256.
  \<open>Date.now()\<close> and \<open>new Date()\<close> are integers
  (milliseconds); the counter of the rate limiter is an integer as well.
\<close>

subsection \<open>Rate limiter\<close>

record rate_record =
  count :: int
  resetAt :: int

type_synonym rate_map = "string \<rightharpoonup> rate_record"

definition RATE_LIMIT_MAX :: int where
  "RATE_LIMIT_MAX = 5"

definition RATE_LIMIT_WINDOW :: int where
  "RATE_LIMIT_WINDOW = 3600000"

text \<open>
  \<open>checkRateLimit(ip)\<close> with \<open>now = Date.now()\<close> as an argument. The source mutates the
  stored object in the branch \<open>record.count++\<close>; the model stores the updated record under
  the same key. The denying branch leaves the table as it is.
\<close>

definition checkRateLimit :: "rate_map \<Rightarrow> string \<Rightarrow> int \<Rightarrow> bool \<times> rate_map" where
  "checkRateLimit m ip now =
     (case m ip of
        None \<Rightarrow> (True, m(ip \<mapsto> \<lparr>count = 1, resetAt = now + RATE_LIMIT_WINDOW\<rparr>))
      | Some rec \<Rightarrow>
          if now > resetAt rec
          then (True, m(ip \<mapsto> \<lparr>count = 1, resetAt = now + RATE_LIMIT_WINDOW\<rparr>))
          else if count rec \<ge> RATE_LIMIT_MAX then (False, m)
          else (True, m(ip \<mapsto> rec\<lparr>count := count rec + 1\<rparr>)))"

text \<open>
  A sequence of calls, each with its key and the clock reading at the call; the answers are
  returned in the order of the calls.
\<close>

fun checkRateLimit_calls :: "rate_map \<Rightarrow> (string \<times> int) list \<Rightarrow> bool list \<times> rate_map" where
  "checkRateLimit_calls m [] = ([], m)"
| "checkRateLimit_calls m ((ip, now) # cs) =
     (case checkRateLimit m ip now of
        (a, m') \<Rightarrow> (case checkRateLimit_calls m' cs of (as, m'') \<Rightarrow> (a # as, m'')))"

text \<open>The answers given to one key, picked out of the answers to a sequence of calls.\<close>

definition answers_for :: "string \<Rightarrow> (string \<times> int) list \<Rightarrow> bool list \<Rightarrow> bool list" where
  "answers_for ip cs as = map snd (filter (\<lambda>(c, a). fst c = ip) (zip cs as))"

text \<open>The bound on the stored counters.\<close>

definition count_bounded :: "rate_map \<Rightarrow> bool" where
  "count_bounded m \<longleftrightarrow> (\<forall>ip rec. m ip = Some rec \<longrightarrow> count rec \<le> RATE_LIMIT_MAX)"

subsection \<open>URL normalisation\<close>

text \<open>
  \<open>data.target_url.toLowerCase().trim().replace(/^https?:\/\//, '').replace(/\/+$/, '')\<close>.
  A character stands for a UTF-16 code unit below 256, read as its code point (the ISO 8859-1
  range); a string with a code unit from 256 on has no counterpart in \<open>string\<close>. On this
  range \<open>toLowerCase\<close> maps \<open>A\<close>..\<open>Z\<close> (65..90) and the capital letters U+00C0..U+00DE
  (192..222, without the multiplication sign 215) to the letter 32 code points further,
  and leaves every other character alone. The white space and line terminators that
  \<open>trim\<close> removes are, on this range, TAB, LF, VT, FF, CR, SPACE and the no-break space
  U+00A0 (160).
\<close>

definition lower_char :: "char \<Rightarrow> char" where
  "lower_char c =
     (if (65 \<le> (of_char c :: nat) \<and> (of_char c :: nat) \<le> 90)
         \<or> (192 \<le> (of_char c :: nat) \<and> (of_char c :: nat) \<le> 214)
         \<or> (216 \<le> (of_char c :: nat) \<and> (of_char c :: nat) \<le> 222)
      then char_of ((of_char c :: nat) + 32) else c)"

definition toLowerCase :: "string \<Rightarrow> string" where
  "toLowerCase s = map lower_char s"

definition is_space :: "char \<Rightarrow> bool" where
  "is_space c \<longleftrightarrow> (of_char c :: nat) \<in> {9, 10, 11, 12, 13, 32, 160}"

definition trim :: "string \<Rightarrow> string" where
  "trim s = rev (dropWhile is_space (rev (dropWhile is_space s)))"

text \<open>\<open>.replace(/^https?:\/\//, '')\<close>: one scheme prefix is removed, when there is one.\<close>

definition strip_scheme :: "string \<Rightarrow> string" where
  "strip_scheme s =
     (if take 7 s = ''http://'' then drop 7 s
      else if take 8 s = ''https://'' then drop 8 s
      else s)"

text \<open>\<open>.replace(/\/+$/, '')\<close>: the whole run of slashes at the end is removed.\<close>

definition strip_trailing_slashes :: "string \<Rightarrow> string" where
  "strip_trailing_slashes s = rev (dropWhile (\<lambda>c. c = CHR ''/'') (rev s))"

definition normalizeUrl :: "string \<Rightarrow> string" where
  "normalizeUrl target_url = strip_trailing_slashes (strip_scheme (trim (toLowerCase target_url)))"

subsection \<open>Request, body and validation\<close>

text \<open>
  What \<open>request.json()\<close> yields: a JSON value that is not an object, or an object of which
  the nine keys of \<open>dmcaRequestSchema\<close> are kept. A key holds a string, a boolean or some
  other JSON value (number, null, array, object); an absent key is \<open>None\<close>.
\<close>

datatype json = JString string | JBoolean bool | JOther

record raw_body =
  raw_requester_contact :: "json option"
  raw_requester_name :: "json option"
  raw_requester_company :: "json option"
  raw_target_url :: "json option"
  raw_target_link_id :: "json option"
  raw_work_title :: "json option"
  raw_claim_details :: "json option"
  raw_good_faith_statement :: "json option"
  raw_accuracy_statement :: "json option"

datatype parsed_json = NonObject | Object raw_body

text \<open>
  The request as the handler reads it: the two headers, and the body as \<open>request.json()\<close>
  parses it, \<open>None\<close> when the body is not JSON and \<open>request.json()\<close> rejects.
\<close>

record request =
  x_forwarded_for :: "string option"
  x_real_ip :: "string option"
  body_json :: "parsed_json option"

text \<open>The validated data, \<open>validation.data\<close>.\<close>

record dmca_data =
  requester_contact :: string
  requester_name :: "string option"
  requester_company :: "string option"
  target_url :: "string option"
  target_link_id :: "string option"
  work_title :: string
  claim_details :: string
  good_faith_statement :: bool
  accuracy_statement :: bool

text \<open>The calls to the store that the two handlers make; each of them can fail.\<close>

datatype db_op =
  LinkFindFirst | LinkFindUnique | RequestCreate | LinkUpdate | AuditCreate
  | TransactionCommit | RequestUpdate | RequestFindFirst

datatype error = StoreError db_op | RecordNotFound | UniqueConstraint

text \<open>
  The environment of one request. The formats \<open>email\<close>, \<open>url\<close> and \<open>uuid\<close> are those of the
  validation library and are parameters here. \<open>generated_id\<close> and \<open>created_at_default\<close>
  are what the store fills in for a new \<open>dmcaRequest\<close> row.
\<close>

record env =
  is_email :: "string \<Rightarrow> bool"
  is_url :: "string \<Rightarrow> bool"
  is_uuid :: "string \<Rightarrow> bool"
  store_fails :: "db_op \<Rightarrow> bool"
  date_now :: int
  new_date :: int
  generated_id :: string
  created_at_default :: int

text \<open>JavaScript truthiness of an optional string: absent and the empty string are falsy.\<close>

definition truthy :: "string option \<Rightarrow> bool" where
  "truthy v = (case v of None \<Rightarrow> False | Some s \<Rightarrow> s \<noteq> [])"

text \<open>\<open>value || fallback\<close> on an optional string.\<close>

definition or_else :: "string option \<Rightarrow> string \<Rightarrow> string" where
  "or_else v fallback = (case v of None \<Rightarrow> fallback | Some s \<Rightarrow> if s = [] then fallback else s)"

text \<open>
  \<open>headersList.get('x-forwarded-for')?.split(',')[0] || headersList.get('x-real-ip') || 'unknown'\<close>
\<close>

definition client_ip :: "request \<Rightarrow> string" where
  "client_ip request =
     or_else (map_option (takeWhile (\<lambda>c. c \<noteq> CHR '','')) (x_forwarded_for request))
       (or_else (x_real_ip request) ''unknown'')"

definition required_string :: "(string \<Rightarrow> bool) \<Rightarrow> json option \<Rightarrow> string option" where
  "required_string ok v =
     (case v of Some (JString s) \<Rightarrow> if ok s then Some s else None | _ \<Rightarrow> None)"

definition optional_string :: "(string \<Rightarrow> bool) \<Rightarrow> json option \<Rightarrow> string option option" where
  "optional_string ok v =
     (case v of
        None \<Rightarrow> Some None
      | Some (JString s) \<Rightarrow> if ok s then Some (Some s) else None
      | Some _ \<Rightarrow> None)"

text \<open>
  \<open>dmcaRequestSchema.safeParse(body)\<close>, as far as its success and its data go: \<open>None\<close>
  stands for \<open>validation.success = false\<close> (the field errors are not modelled).
\<close>

definition safeParse :: "env \<Rightarrow> parsed_json \<Rightarrow> dmca_data option" where
  "safeParse env body =
     (case body of
        NonObject \<Rightarrow> None
      | Object r \<Rightarrow> do {
          contact \<leftarrow> required_string (is_email env) (raw_requester_contact r);
          name \<leftarrow> optional_string (\<lambda>s. 1 \<le> length s \<and> length s \<le> 200) (raw_requester_name r);
          company \<leftarrow> optional_string (\<lambda>s. length s \<le> 200) (raw_requester_company r);
          url \<leftarrow> optional_string (is_url env) (raw_target_url r);
          link \<leftarrow> optional_string (is_uuid env) (raw_target_link_id r);
          title \<leftarrow> required_string (\<lambda>s. 1 \<le> length s \<and> length s \<le> 500) (raw_work_title r);
          details \<leftarrow> required_string (\<lambda>s. 20 \<le> length s \<and> length s \<le> 5000) (raw_claim_details r);
          if raw_good_faith_statement r = Some (JBoolean True)
             \<and> raw_accuracy_statement r = Some (JBoolean True)
             \<and> (truthy url \<or> truthy link)
          then Some \<lparr>requester_contact = contact, requester_name = name,
                     requester_company = company, target_url = url, target_link_id = link,
                     work_title = title, claim_details = details,
                     good_faith_statement = True, accuracy_statement = True\<rparr>
          else None
        })"

subsection \<open>The store\<close>

record chapter_link =
  link_id :: string
  link_series_id :: string
  link_url :: string
  link_url_normalized :: string
  link_status :: string
  link_deleted_at :: "int option"
  link_submitted_by :: "string option"

text \<open>The columns that both lookups select: \<open>id\<close>, \<open>series_id\<close>, \<open>url\<close>, \<open>submitted_by\<close>.\<close>

record link_ref =
  ref_id :: string
  ref_series_id :: string
  ref_url :: string
  ref_submitted_by :: "string option"

record dmca_request =
  req_id :: string
  req_requester_contact :: string
  req_requester_name :: "string option"
  req_requester_company :: "string option"
  req_target_url :: "string option"
  req_target_link_id :: "string option"
  req_target_series_id :: "string option"
  req_work_title :: string
  req_claim_details :: string
  req_status :: string
  req_created_at :: int
  req_resolved_at :: "int option"
  req_resolution_note :: "string option"

record audit_payload =
  dmca_request_id :: string
  payload_requester_contact :: string
  payload_work_title :: string
  reason :: string

record audit_entry =
  chapter_link_id :: string
  action :: string
  actor_ip :: string
  payload :: audit_payload

text \<open>
  The three tables, each a list of rows in the order in which the store scans them; a new
  row goes to the end.
\<close>

record store =
  chapterLink :: "chapter_link list"
  dmcaRequest :: "dmca_request list"
  linkSubmissionAudit :: "audit_entry list"

definition select_ref :: "chapter_link \<Rightarrow> link_ref" where
  "select_ref l = \<lparr>ref_id = link_id l, ref_series_id = link_series_id l,
                   ref_url = link_url l, ref_submitted_by = link_submitted_by l\<rparr>"

text \<open>
  \<open>prisma.chapterLink.findFirst({where: {url_normalized, deleted_at: null}, select})\<close>.
  The call asks for no order (\<open>orderBy\<close> is absent), so the row it returns is the first
  match in the scan order of the store.
\<close>

definition link_findFirst :: "env \<Rightarrow> store \<Rightarrow> string \<Rightarrow> error + link_ref option" where
  "link_findFirst env st normalizedUrl =
     (if store_fails env LinkFindFirst then Inl (StoreError LinkFindFirst)
      else Inr (map_option select_ref
                  (find (\<lambda>l. link_url_normalized l = normalizedUrl \<and> link_deleted_at l = None)
                     (chapterLink st))))"

text \<open>\<open>prisma.chapterLink.findUnique({where: {id}, select})\<close>\<close>

definition link_findUnique :: "env \<Rightarrow> store \<Rightarrow> string \<Rightarrow> error + link_ref option" where
  "link_findUnique env st i =
     (if store_fails env LinkFindUnique then Inl (StoreError LinkFindUnique)
      else Inr (map_option select_ref (find (\<lambda>l. link_id l = i) (chapterLink st))))"

text \<open>
  The row of \<open>prisma.dmcaRequest.create({data})\<close>: the fields of the \<open>data\<close> object, and
  the id and the creation time that the store gives the row.
\<close>

definition claim_row :: "env \<Rightarrow> dmca_data \<Rightarrow> string option \<Rightarrow> link_ref option \<Rightarrow> dmca_request" where
  "claim_row env data targetLinkId targetLink =
     \<lparr>req_id = generated_id env,
      req_requester_contact = requester_contact data,
      req_requester_name = requester_name data,
      req_requester_company = requester_company data,
      req_target_url = target_url data,
      req_target_link_id = targetLinkId,
      req_target_series_id = map_option ref_series_id targetLink,
      req_work_title = work_title data,
      req_claim_details = claim_details data,
      req_status = ''pending'',
      req_created_at = created_at_default env,
      req_resolved_at = None,
      req_resolution_note = None\<rparr>"

text \<open>
  \<open>prisma.dmcaRequest.create({data})\<close>: the id is the primary key, so a row whose id is
  taken is refused.
\<close>

definition request_create ::
  "env \<Rightarrow> store \<Rightarrow> dmca_data \<Rightarrow> string option \<Rightarrow> link_ref option \<Rightarrow> error + dmca_request \<times> store" where
  "request_create env st data targetLinkId targetLink =
     (if store_fails env RequestCreate then Inl (StoreError RequestCreate)
      else if generated_id env \<in> req_id ` set (dmcaRequest st) then Inl UniqueConstraint
      else
        let row = claim_row env data targetLinkId targetLink
        in Inr (row, st\<lparr>dmcaRequest := dmcaRequest st @ [row]\<rparr>))"

text \<open>
  \<open>tx.chapterLink.update({where: {id}, data: {status: 'removed', deleted_at: new Date()}})\<close>:
  the row with that id gets the two fields; an update of a row that does not exist throws.
\<close>

definition mark_removed :: "env \<Rightarrow> string \<Rightarrow> chapter_link list \<Rightarrow> chapter_link list" where
  "mark_removed env i links =
     map (\<lambda>l. if link_id l = i
               then l\<lparr>link_status := ''removed'', link_deleted_at := Some (new_date env)\<rparr>
               else l)
       links"

definition link_update :: "env \<Rightarrow> store \<Rightarrow> string \<Rightarrow> error + store" where
  "link_update env st i =
     (if store_fails env LinkUpdate then Inl (StoreError LinkUpdate)
      else if i \<notin> link_id ` set (chapterLink st) then Inl RecordNotFound
      else Inr (st\<lparr>chapterLink := mark_removed env i (chapterLink st)\<rparr>))"

text \<open>\<open>tx.linkSubmissionAudit.create({data})\<close>\<close>

definition audit_create :: "env \<Rightarrow> store \<Rightarrow> audit_entry \<Rightarrow> error + store" where
  "audit_create env st entry =
     (if store_fails env AuditCreate then Inl (StoreError AuditCreate)
      else Inr (st\<lparr>linkSubmissionAudit := linkSubmissionAudit st @ [entry]\<rparr>))"

text \<open>\<open>prisma.dmcaRequest.update({where: {id}, data: {status: 'processing'}})\<close>\<close>

definition mark_processing :: "string \<Rightarrow> dmca_request list \<Rightarrow> dmca_request list" where
  "mark_processing i claims =
     map (\<lambda>r. if req_id r = i then r\<lparr>req_status := ''processing''\<rparr> else r) claims"

definition request_update :: "env \<Rightarrow> store \<Rightarrow> string \<Rightarrow> error + store" where
  "request_update env st i =
     (if store_fails env RequestUpdate then Inl (StoreError RequestUpdate)
      else if i \<notin> req_id ` set (dmcaRequest st) then Inl RecordNotFound
      else Inr (st\<lparr>dmcaRequest := mark_processing i (dmcaRequest st)\<rparr>))"

text \<open>
  \<open>prisma.$transaction(async (tx) => ...)\<close>: the callback works on the transaction's view of
  the store; when it throws, or the commit fails, the store is as it was before.
\<close>

definition transaction :: "env \<Rightarrow> (store \<Rightarrow> error + store) \<Rightarrow> store \<Rightarrow> error + store" where
  "transaction env callback st =
     (case callback st of
        Inl e \<Rightarrow> Inl e
      | Inr tx \<Rightarrow> if store_fails env TransactionCommit then Inl (StoreError TransactionCommit)
                 else Inr tx)"

subsection \<open>Responses\<close>

record public_view =
  view_id :: string
  view_status :: string
  view_work_title :: string
  view_target_url :: "string option"
  view_created_at :: int
  view_resolved_at :: "int option"
  view_resolution_note :: "string option"

text \<open>
  The JSON bodies the handlers send: \<open>{error, message}\<close>, \<open>{error}\<close>,
  \<open>{error: 'Validation failed', details}\<close> (without the details),
  \<open>{success: true, message, request_id, link_removed}\<close> and \<open>{request}\<close>.
\<close>

datatype response_body =
  ErrorMessage string string
  | ErrorOnly string
  | ValidationFailed
  | Submitted string string bool
  | RequestView public_view

record response =
  status :: nat
  content :: response_body

definition too_many_requests :: response where
  "too_many_requests =
     \<lparr>status = 429,
      content = ErrorMessage ''Too many requests''
        ''Please wait before submitting another DMCA request. Maximum 5 requests per hour.''\<rparr>"

definition validation_failed :: response where
  "validation_failed = \<lparr>status = 400, content = ValidationFailed\<rparr>"

definition internal_error :: response where
  "internal_error =
     \<lparr>status = 500,
      content = ErrorMessage ''Internal server error'' ''Failed to process DMCA request''\<rparr>"

definition submitted :: "string \<Rightarrow> bool \<Rightarrow> response" where
  "submitted request_id link_removed =
     \<lparr>status = 201,
      content = Submitted
        (if link_removed
         then ''DMCA request received and link has been removed pending review.''
         else ''DMCA request received. Our team will review and take appropriate action.'')
        request_id link_removed\<rparr>"

definition missing_parameters :: response where
  "missing_parameters =
     \<lparr>status = 400, content = ErrorOnly ''Missing required parameters: id and email''\<rparr>"

definition not_found :: response where
  "not_found = \<lparr>status = 404, content = ErrorOnly ''Request not found or email does not match''\<rparr>"

definition lookup_failed :: response where
  "lookup_failed = \<lparr>status = 500, content = ErrorOnly ''Internal server error''\<rparr>"

definition found :: "public_view \<Rightarrow> response" where
  "found v = \<lparr>status = 200, content = RequestView v\<rparr>"

subsection \<open>POST /api/dmca\<close>

text \<open>
  Lines 99 to 134: the target of the claim. The result is the pair of \<open>targetLinkId\<close> and
  \<open>targetLink\<close> after the two branches. The lookup by id has no filter on \<open>deleted_at\<close> or
  \<open>status\<close>; the lookup by URL skips the rows whose \<open>deleted_at\<close> is set.
\<close>

definition resolve_target ::
  "env \<Rightarrow> store \<Rightarrow> dmca_data \<Rightarrow> error + string option \<times> link_ref option" where
  "resolve_target env st data =
     (let targetLinkId = (if truthy (target_link_id data) then target_link_id data else None)
      in if truthy (target_url data) \<and> \<not> truthy targetLinkId
         then (case link_findFirst env st (normalizeUrl (or_else (target_url data) [])) of
                 Inl e \<Rightarrow> Inl e
               | Inr targetLink \<Rightarrow>
                   Inr (case targetLink of
                          Some l \<Rightarrow> Some (ref_id l)
                        | None \<Rightarrow> targetLinkId,
                        targetLink))
         else (case targetLinkId of
                 Some i \<Rightarrow>
                   (case link_findUnique env st i of
                      Inl e \<Rightarrow> Inl e
                    | Inr targetLink \<Rightarrow> Inr (targetLinkId, targetLink))
               | None \<Rightarrow> Inr (targetLinkId, None)))"

text \<open>
  Lines 153 to 177: the callback of the transaction, on the transaction's store \<open>tx\<close>;
  \<open>claim\<close> is the created row \<open>dmcaRequest\<close>.
\<close>

definition removal_entry :: "link_ref \<Rightarrow> string \<Rightarrow> dmca_request \<Rightarrow> dmca_data \<Rightarrow> audit_entry" where
  "removal_entry targetLink ip claim data =
     \<lparr>chapter_link_id = ref_id targetLink,
      action = ''dmca_remove'',
      actor_ip = ip,
      payload = \<lparr>dmca_request_id = req_id claim,
                 payload_requester_contact = requester_contact data,
                 payload_work_title = work_title data,
                 reason = ''DMCA takedown request''\<rparr>\<rparr>"

definition removal ::
  "env \<Rightarrow> link_ref \<Rightarrow> string \<Rightarrow> dmca_request \<Rightarrow> dmca_data \<Rightarrow> store \<Rightarrow> error + store" where
  "removal env targetLink ip claim data tx =
     (case link_update env tx (ref_id targetLink) of
        Inl e \<Rightarrow> Inl e
      | Inr tx' \<Rightarrow> audit_create env tx' (removal_entry targetLink ip claim data))"

text \<open>
  Lines 96 to 195, after validation; \<open>claim\<close> is the row \<open>dmcaRequest\<close> that
  \<open>prisma.dmcaRequest.create\<close> returns. Every store call that fails throws, and the
  \<open>catch\<close> of the handler answers 500; what the store had committed before stays.
\<close>

definition process_claim :: "env \<Rightarrow> string \<Rightarrow> store \<Rightarrow> dmca_data \<Rightarrow> response \<times> store" where
  "process_claim env ip st data =
     (case resolve_target env st data of
        Inl e \<Rightarrow> (internal_error, st)
      | Inr (targetLinkId, targetLink) \<Rightarrow>
          (case request_create env st data targetLinkId targetLink of
             Inl e \<Rightarrow> (internal_error, st)
           | Inr (claim, st1) \<Rightarrow>
               (case targetLink of
                  None \<Rightarrow> (submitted (req_id claim) False, st1)
                | Some l \<Rightarrow>
                    (case transaction env (removal env l ip claim data) st1 of
                       Inl e \<Rightarrow> (internal_error, st1)
                     | Inr st2 \<Rightarrow>
                         (case request_update env st2 (req_id claim) of
                            Inl e \<Rightarrow> (internal_error, st2)
                          | Inr st3 \<Rightarrow> (submitted (req_id claim) True, st3))))))"

definition POST :: "env \<Rightarrow> rate_map \<Rightarrow> store \<Rightarrow> request \<Rightarrow> response \<times> rate_map \<times> store" where
  "POST env rl st request =
     (let ip = client_ip request
      in case checkRateLimit rl ip (date_now env) of
           (False, rl') \<Rightarrow> (too_many_requests, rl', st)
         | (True, rl') \<Rightarrow>
             (case body_json request of
                None \<Rightarrow> (internal_error, rl', st)
              | Some body \<Rightarrow>
                  (case safeParse env body of
                     None \<Rightarrow> (validation_failed, rl', st)
                   | Some data \<Rightarrow>
                       (case process_claim env ip st data of (resp, st') \<Rightarrow> (resp, rl', st')))))"

subsection \<open>GET /api/dmca\<close>

definition select_view :: "dmca_request \<Rightarrow> public_view" where
  "select_view r =
     \<lparr>view_id = req_id r, view_status = req_status r, view_work_title = req_work_title r,
      view_target_url = req_target_url r, view_created_at = req_created_at r,
      view_resolved_at = req_resolved_at r, view_resolution_note = req_resolution_note r\<rparr>"

text \<open>\<open>prisma.dmcaRequest.findFirst({where: {id, requester_contact}, select})\<close>\<close>

definition request_findFirst :: "env \<Rightarrow> store \<Rightarrow> string \<Rightarrow> string \<Rightarrow> error + public_view option" where
  "request_findFirst env st requestId email =
     (if store_fails env RequestFindFirst then Inl (StoreError RequestFindFirst)
      else Inr (map_option select_view
                  (find (\<lambda>r. req_id r = requestId \<and> req_requester_contact r = email)
                     (dmcaRequest st))))"

text \<open>
  The two arguments are \<open>searchParams.get('id')\<close> and \<open>searchParams.get('email')\<close>; a
  parameter that is absent or empty is missing.
\<close>

definition GET :: "env \<Rightarrow> store \<Rightarrow> string option \<Rightarrow> string option \<Rightarrow> response" where
  "GET env st requestId email =
     (case requestId of
        None \<Rightarrow> missing_parameters
      | Some i \<Rightarrow>
          (case email of
             None \<Rightarrow> missing_parameters
           | Some e \<Rightarrow>
               if i = [] \<or> e = [] then missing_parameters
               else (case request_findFirst env st i e of
                       Inl err \<Rightarrow> lookup_failed
                     | Inr None \<Rightarrow> not_found
                     | Inr (Some v) \<Rightarrow> found v)))"

subsection \<open>Predicates on the store\<close>

text \<open>The audit entries of action \<open>dmca_remove\<close> for a link and a claim.\<close>

definition removal_entries :: "store \<Rightarrow> string \<Rightarrow> string \<Rightarrow> audit_entry list" where
  "removal_entries st link claim =
     filter (\<lambda>a. action a = ''dmca_remove'' \<and> chapter_link_id a = link
                 \<and> dmca_request_id (payload a) = claim)
       (linkSubmissionAudit st)"

text \<open>The audit entries of action \<open>dmca_remove\<close> for a link, whatever the claim.\<close>

definition link_removals :: "store \<Rightarrow> string \<Rightarrow> audit_entry list" where
  "link_removals st link =
     filter (\<lambda>a. action a = ''dmca_remove'' \<and> chapter_link_id a = link) (linkSubmissionAudit st)"

text \<open>Every audit entry names a claim that is in the store.\<close>

definition audits_name_claims :: "store \<Rightarrow> bool" where
  "audits_name_claims st \<longleftrightarrow>
     list_all (\<lambda>a. dmca_request_id (payload a) \<in> req_id ` set (dmcaRequest st))
       (linkSubmissionAudit st)"

text \<open>None of the writes of the handler fails: the three creates and updates, and the commit.\<close>

definition writes_ok :: "env \<Rightarrow> bool" where
  "writes_ok env \<longleftrightarrow>
     list_all (\<lambda>op. \<not> store_fails env op)
       [RequestCreate, LinkUpdate, AuditCreate, TransactionCommit, RequestUpdate]"

section \<open>Example data\<close>

text \<open>
  A store with one link, the submission of the end-to-end example against it, and variants
  of both; the theorems below are instantiated on them.
\<close>

definition example_env :: env where
  "example_env =
     \<lparr>is_email = (\<lambda>s. CHR ''@'' \<in> set s),
      is_url = (\<lambda>s. take 7 (toLowerCase s) = ''http://'' \<or> take 8 (toLowerCase s) = ''https://''),
      is_uuid = (\<lambda>s. length s = 36),
      store_fails = (\<lambda>op. False),
      date_now = 1000, new_date = 2000,
      generated_id = ''22222222-2222-4222-8222-222222222222'',
      created_at_default = 1500\<rparr>"

definition example_link :: chapter_link where
  "example_link =
     \<lparr>link_id = ''11111111-1111-4111-8111-111111111111'', link_series_id = ''series-1'',
      link_url = ''https://Example.com/ch/1/'', link_url_normalized = ''example.com/ch/1'',
      link_status = ''active'', link_deleted_at = None, link_submitted_by = None\<rparr>"

definition example_store :: store where
  "example_store = \<lparr>chapterLink = [example_link], dmcaRequest = [], linkSubmissionAudit = []\<rparr>"

definition example_body :: raw_body where
  "example_body =
     \<lparr>raw_requester_contact = Some (JString ''a@x.com''),
      raw_requester_name = None, raw_requester_company = None,
      raw_target_url = Some (JString ''https://Example.com/ch/1/''),
      raw_target_link_id = None,
      raw_work_title = Some (JString ''Book''),
      raw_claim_details = Some (JString ''This chapter copies my book.''),
      raw_good_faith_statement = Some (JBoolean True),
      raw_accuracy_statement = Some (JBoolean True)\<rparr>"

definition example_data :: dmca_data where
  "example_data =
     \<lparr>requester_contact = ''a@x.com'', requester_name = None, requester_company = None,
      target_url = Some ''https://Example.com/ch/1/'', target_link_id = None,
      work_title = ''Book'', claim_details = ''This chapter copies my book.'',
      good_faith_statement = True, accuracy_statement = True\<rparr>"

definition example_request :: request where
  "example_request =
     \<lparr>x_forwarded_for = Some ''203.0.113.7, 10.0.0.1'', x_real_ip = None,
      body_json = Some (Object example_body)\<rparr>"

definition failing_env :: env where
  "failing_env = example_env\<lparr>store_fails := (\<lambda>op. op = AuditCreate)\<rparr>"

definition unknown_url_data :: dmca_data where
  "unknown_url_data = example_data\<lparr>target_url := Some ''https://example.com/ch/2''\<rparr>"

definition unknown_url_request :: request where
  "unknown_url_request =
     example_request\<lparr>body_json :=
       Some (Object (example_body\<lparr>raw_target_url := Some (JString ''https://example.com/ch/2'')\<rparr>))\<rparr>"

definition unparseable_request :: request where
  "unparseable_request = example_request\<lparr>body_json := None\<rparr>"

definition processed_store :: store where
  "processed_store =
     \<lparr>chapterLink = [example_link\<lparr>link_status := ''removed'', link_deleted_at := Some 2000\<rparr>],
      dmcaRequest =
        [(claim_row example_env example_data (Some ''11111111-1111-4111-8111-111111111111'')
            (Some (select_ref example_link)))\<lparr>req_status := ''processing''\<rparr>],
      linkSubmissionAudit =
        [removal_entry (select_ref example_link) ''203.0.113.7''
           (claim_row example_env example_data (Some ''11111111-1111-4111-8111-111111111111'')
              (Some (select_ref example_link)))
           example_data]\<rparr>"

definition twin_link :: chapter_link where
  "twin_link =
     example_link\<lparr>link_id := ''33333333-3333-4333-8333-333333333333'',
                  link_url := ''http://example.com/ch/1''\<rparr>"

definition store_ab :: store where
  "store_ab = \<lparr>chapterLink = [example_link, twin_link], dmcaRequest = [], linkSubmissionAudit = []\<rparr>"

definition store_ba :: store where
  "store_ba = \<lparr>chapterLink = [twin_link, example_link], dmcaRequest = [], linkSubmissionAudit = []\<rparr>"

definition second_env :: env where
  "second_env =
     example_env\<lparr>date_now := 7000, new_date := 8000,
                 generated_id := ''44444444-4444-4444-8444-444444444444'',
                 created_at_default := 7500\<rparr>"

definition by_id_request :: request where
  "by_id_request =
     example_request\<lparr>body_json :=
       Some (Object (example_body\<lparr>raw_target_url := None,
         raw_target_link_id := Some (JString ''11111111-1111-4111-8111-111111111111'')\<rparr>))\<rparr>"

section \<open>Properties of the rate limiter\<close>

lemma checkRateLimit_other_key:
  "ip' \<noteq> ip \<Longrightarrow> snd (checkRateLimit m ip' now) ip = m ip"
  by (simp add: checkRateLimit_def split: option.splits)

lemma answers_for_Nil [simp]: "answers_for ip [] as = []"
  by (simp add: answers_for_def)

lemma answers_for_Cons [simp]:
  "answers_for ip ((k, t) # cs) (a # as) =
     (if k = ip then a # answers_for ip cs as else answers_for ip cs as)"
  by (simp add: answers_for_def)

lemma calls_Cons:
  "checkRateLimit_calls m ((ip, now) # cs) =
     (fst (checkRateLimit m ip now) # fst (checkRateLimit_calls (snd (checkRateLimit m ip now)) cs),
      snd (checkRateLimit_calls (snd (checkRateLimit m ip now)) cs))"
  by (simp split: prod.splits)

lemma checkRateLimit_in_window:
  assumes "m ip = Some rec" and "\<not> resetAt rec < now"
  shows "checkRateLimit m ip now =
           (if count rec < RATE_LIMIT_MAX
            then (True, m(ip \<mapsto> rec\<lparr>count := count rec + 1\<rparr>)) else (False, m))"
  using assms by (simp add: checkRateLimit_def)

lemma checkRateLimit_reset:
  assumes "m ip = None \<or> (\<exists>rec. m ip = Some rec \<and> resetAt rec < now)"
  shows "checkRateLimit m ip now =
           (True, m(ip \<mapsto> \<lparr>count = 1, resetAt = now + RATE_LIMIT_WINDOW\<rparr>))"
  using assms by (auto simp add: checkRateLimit_def)

lemma calls_in_window:
  assumes "m ip = Some rec"
    and "\<forall>(k, t) \<in> set cs. k = ip \<longrightarrow> t \<le> resetAt rec"
  shows "answers_for ip cs (fst (checkRateLimit_calls m cs)) =
           replicate (min (nat (RATE_LIMIT_MAX - count rec)) (length (filter (\<lambda>c. fst c = ip) cs))) True
           @ replicate (length (filter (\<lambda>c. fst c = ip) cs) - nat (RATE_LIMIT_MAX - count rec)) False"
  using assms
proof (induction cs arbitrary: m rec)
  case Nil
  then show ?case by simp
next
  case (Cons c cs)
  obtain k t where c: "c = (k, t)" by (cases c)
  show ?case
  proof (cases "k = ip")
    case False
    then have "snd (checkRateLimit m k t) ip = Some rec"
      using Cons.prems(1) by (simp add: checkRateLimit_other_key)
    moreover have "\<forall>(k, t) \<in> set cs. k = ip \<longrightarrow> t \<le> resetAt rec"
      using Cons.prems(2) by simp
    ultimately have "answers_for ip cs (fst (checkRateLimit_calls (snd (checkRateLimit m k t)) cs)) =
           replicate (min (nat (RATE_LIMIT_MAX - count rec)) (length (filter (\<lambda>c. fst c = ip) cs))) True
           @ replicate (length (filter (\<lambda>c. fst c = ip) cs) - nat (RATE_LIMIT_MAX - count rec)) False"
      by (rule Cons.IH)
    with False c show ?thesis
      by (simp add: calls_Cons del: checkRateLimit_calls.simps)
  next
    case True
    have t: "\<not> resetAt rec < t" using Cons.prems(2) c True by simp
    have rest: "\<forall>(k, t) \<in> set cs. k = ip \<longrightarrow> t \<le> resetAt rec"
      using Cons.prems(2) by simp
    show ?thesis
    proof (cases "count rec < RATE_LIMIT_MAX")
      case full: False
      have step: "checkRateLimit m ip t = (False, m)"
        using checkRateLimit_in_window [of m ip rec t] Cons.prems(1) t full by simp
      have "nat (RATE_LIMIT_MAX - count rec) = 0" using full by simp
      with Cons.IH [of m rec] Cons.prems(1) rest step c True show ?thesis
        by (simp add: calls_Cons del: checkRateLimit_calls.simps)
    next
      case room: True
      let ?rec = "rec\<lparr>count := count rec + 1\<rparr>"
      let ?m = "m(ip \<mapsto> ?rec)"
      have step: "checkRateLimit m ip t = (True, ?m)"
        using checkRateLimit_in_window [of m ip rec t] Cons.prems(1) t room by simp
      have "?m ip = Some ?rec" by simp
      moreover have "\<forall>(k, t) \<in> set cs. k = ip \<longrightarrow> t \<le> resetAt ?rec"
        using rest by simp
      ultimately have IH: "answers_for ip cs (fst (checkRateLimit_calls ?m cs)) =
           replicate (min (nat (RATE_LIMIT_MAX - count ?rec)) (length (filter (\<lambda>c. fst c = ip) cs))) True
           @ replicate (length (filter (\<lambda>c. fst c = ip) cs) - nat (RATE_LIMIT_MAX - count ?rec)) False"
        by (rule Cons.IH)
      have n: "nat (RATE_LIMIT_MAX - count rec) = Suc (nat (RATE_LIMIT_MAX - count ?rec))"
        using room by simp
      show ?thesis
        using IH step c True unfolding n
        by (simp add: calls_Cons del: checkRateLimit_calls.simps)
    qed
  qed
qed


lemma count_bounded_step:
  assumes "count_bounded m"
  shows "count_bounded (snd (checkRateLimit m ip now))"
proof -
  have "count rec' \<le> RATE_LIMIT_MAX"
    if "snd (checkRateLimit m ip now) k = Some rec'" for k rec'
  proof (cases "k = ip")
    case False
    then have "m k = Some rec'"
      using that checkRateLimit_other_key [of ip k m now] by simp
    with assms show ?thesis by (simp add: count_bounded_def)
  next
    case True
    show ?thesis
    proof (cases "m ip")
      case None
      with that True show ?thesis
        by (auto simp add: checkRateLimit_def RATE_LIMIT_MAX_def)
    next
      case (Some rec)
      then have "count rec \<le> RATE_LIMIT_MAX"
        using assms by (simp add: count_bounded_def)
      with that True Some show ?thesis
        by (auto simp add: checkRateLimit_def RATE_LIMIT_MAX_def split: if_splits)
    qed
  qed
  then show ?thesis by (simp add: count_bounded_def)
qed

text \<open>
  Claim C9. The stored counter of every key is at most \<open>RATE_LIMIT_MAX = 5\<close>: a call of
  \<open>checkRateLimit\<close> sets the counter to 1 or increments it where it is below the maximum,
  so a table whose counters are bounded stays so after one call and after any sequence of
  calls.
\<close>

theorem rate_limit_count_invariant:
  assumes "count_bounded m"
  shows "count_bounded (snd (checkRateLimit m ip now))
         \<and> count_bounded (snd (checkRateLimit_calls m cs))"
proof
  show "count_bounded (snd (checkRateLimit m ip now))"
    using assms by (rule count_bounded_step)
  show "count_bounded (snd (checkRateLimit_calls m cs))"
    using assms
  proof (induction cs arbitrary: m)
    case Nil
    then show ?case by simp
  next
    case (Cons c cs)
    obtain k t where c: "c = (k, t)" by (cases c)
    have "count_bounded (snd (checkRateLimit m k t))"
      using Cons.prems by (rule count_bounded_step)
    then have "count_bounded (snd (checkRateLimit_calls (snd (checkRateLimit m k t)) cs))"
      by (rule Cons.IH)
    then show ?case
      by (simp add: c calls_Cons del: checkRateLimit_calls.simps)
  qed
qed

theorem rate_limit_count_invariant_witness:
  "count_bounded (Map.empty(''203.0.113.7'' \<mapsto> \<lparr>count = 5, resetAt = 100\<rparr>))
   \<and> count_bounded (snd (checkRateLimit
        (Map.empty(''203.0.113.7'' \<mapsto> \<lparr>count = 5, resetAt = 100\<rparr>)) ''203.0.113.7'' 50))
   \<and> count_bounded (snd (checkRateLimit_calls
        (Map.empty(''203.0.113.7'' \<mapsto> \<lparr>count = 5, resetAt = 100\<rparr>))
        [(''203.0.113.7'', 60), (''198.51.100.2'', 70), (''203.0.113.7'', 101)]))"
proof -
  have h: "count_bounded (Map.empty(''203.0.113.7'' \<mapsto> \<lparr>count = 5, resetAt = 100\<rparr>))"
    by (simp add: count_bounded_def RATE_LIMIT_MAX_def)
  from rate_limit_count_invariant [OF h, of "''203.0.113.7''" 50
      "[(''203.0.113.7'', 60), (''198.51.100.2'', 70), (''203.0.113.7'', 101)]"] h
  show ?thesis by blast
qed

text \<open>
  Claim C4. When the key has no record, or its window has elapsed at \<open>t0\<close>, the call at
  \<open>t0\<close> is admitted and stores count 1 and the reset time \<open>t0 + RATE_LIMIT_WINDOW\<close>.
  Of this call and the later calls of the same key that fall in that window (calls of other
  keys may come in between), exactly the first five are admitted; the sixth and every later
  one is denied.
\<close>

theorem rate_limit_window:
  assumes "m ip = None \<or> (\<exists>rec. m ip = Some rec \<and> resetAt rec < t0)"
    and "\<forall>(k, t) \<in> set cs. k = ip \<longrightarrow> t \<le> t0 + RATE_LIMIT_WINDOW"
  shows "checkRateLimit m ip t0 =
           (True, m(ip \<mapsto> \<lparr>count = 1, resetAt = t0 + RATE_LIMIT_WINDOW\<rparr>))
         \<and> answers_for ip ((ip, t0) # cs) (fst (checkRateLimit_calls m ((ip, t0) # cs))) =
             replicate (min 5 (Suc (length (filter (\<lambda>c. fst c = ip) cs)))) True
             @ replicate (Suc (length (filter (\<lambda>c. fst c = ip) cs)) - 5) False"
proof -
  let ?rec = "\<lparr>count = 1, resetAt = t0 + RATE_LIMIT_WINDOW\<rparr>"
  let ?m = "m(ip \<mapsto> ?rec)"
  let ?n = "length (filter (\<lambda>c. fst c = ip) cs)"
  have first: "checkRateLimit m ip t0 = (True, ?m)"
    using assms(1) by (rule checkRateLimit_reset)
  have "?m ip = Some ?rec" by simp
  moreover have "\<forall>(k, t) \<in> set cs. k = ip \<longrightarrow> t \<le> resetAt ?rec"
    using assms(2) by simp
  ultimately have "answers_for ip cs (fst (checkRateLimit_calls ?m cs)) =
      replicate (min (nat (RATE_LIMIT_MAX - count ?rec)) ?n) True
      @ replicate (?n - nat (RATE_LIMIT_MAX - count ?rec)) False"
    by (rule calls_in_window)
  then have rest: "answers_for ip cs (fst (checkRateLimit_calls ?m cs)) =
      replicate (min 4 ?n) True @ replicate (?n - 4) False"
    by (simp add: RATE_LIMIT_MAX_def)
  have "min 5 (Suc ?n) = Suc (min 4 ?n)" by simp
  moreover have "Suc ?n - 5 = ?n - 4" by simp
  ultimately have "answers_for ip ((ip, t0) # cs) (fst (checkRateLimit_calls m ((ip, t0) # cs))) =
      replicate (min 5 (Suc ?n)) True @ replicate (Suc ?n - 5) False"
    using first rest by (simp add: calls_Cons del: checkRateLimit_calls.simps)
  with first show ?thesis by simp
qed

theorem rate_limit_window_witness:
  "(Map.empty ''203.0.113.7'' = (None :: rate_record option)
      \<or> (\<exists>rec. Map.empty ''203.0.113.7'' = Some rec \<and> resetAt rec < 1000))
   \<and> list_all (\<lambda>(k, t). k = ''203.0.113.7'' \<longrightarrow> t \<le> 1000 + RATE_LIMIT_WINDOW)
         [(''203.0.113.7'', 1001), (''198.51.100.2'', 1002), (''203.0.113.7'', 1003),
          (''203.0.113.7'', 2000), (''203.0.113.7'', 3601000), (''203.0.113.7'', 3601000)]
   \<and> answers_for ''203.0.113.7''
        [(''203.0.113.7'', 1000), (''203.0.113.7'', 1001), (''198.51.100.2'', 1002),
         (''203.0.113.7'', 1003), (''203.0.113.7'', 2000), (''203.0.113.7'', 3601000),
         (''203.0.113.7'', 3601000)]
        (fst (checkRateLimit_calls Map.empty
          [(''203.0.113.7'', 1000), (''203.0.113.7'', 1001), (''198.51.100.2'', 1002),
           (''203.0.113.7'', 1003), (''203.0.113.7'', 2000), (''203.0.113.7'', 3601000),
           (''203.0.113.7'', 3601000)]))
      = [True, True, True, True, True, False]"
proof -
  have h1: "Map.empty ''203.0.113.7'' = (None :: rate_record option)
      \<or> (\<exists>rec. Map.empty ''203.0.113.7'' = Some rec \<and> resetAt rec < 1000)"
    by simp
  have h2: "\<forall>(k, t) \<in> set [(''203.0.113.7'', 1001), (''198.51.100.2'', 1002), (''203.0.113.7'', 1003),
                        (''203.0.113.7'', 2000), (''203.0.113.7'', 3601000), (''203.0.113.7'', 3601000)].
         k = ''203.0.113.7'' \<longrightarrow> t \<le> 1000 + RATE_LIMIT_WINDOW"
    by (simp add: RATE_LIMIT_WINDOW_def)
  show ?thesis
    using h1 h2 rate_limit_window [OF h1 h2]
    by (simp add: numeral_eq_Suc del: checkRateLimit_calls.simps answers_for_Cons)
qed

section \<open>Properties of URL normalisation\<close>

lemma of_char_lower_char:
  "(of_char (lower_char c) :: nat) =
     (if (65 \<le> (of_char c :: nat) \<and> (of_char c :: nat) \<le> 90)
         \<or> (192 \<le> (of_char c :: nat) \<and> (of_char c :: nat) \<le> 214)
         \<or> (216 \<le> (of_char c :: nat) \<and> (of_char c :: nat) \<le> 222)
      then of_char c + 32 else of_char c)"
  by (auto simp add: lower_char_def)

lemma is_space_lower_char [simp]: "is_space (lower_char c) = is_space c"
  by (auto simp add: is_space_def of_char_lower_char)

lemma slash_code: "c = CHR ''/'' \<longleftrightarrow> (of_char c :: nat) = 47"
proof -
  have "(of_char (CHR ''/'') :: nat) = 47" by simp
  then show ?thesis by (metis of_char_eq_iff)
qed

lemma lower_char_slash [simp]: "lower_char c = CHR ''/'' \<longleftrightarrow> c = CHR ''/''"
  by (auto simp add: slash_code of_char_lower_char)

lemma not_space_slash [simp]: "\<not> is_space (CHR ''/'')"
  by (simp add: is_space_def)

lemma toLowerCase_append [simp]: "toLowerCase (xs @ ys) = toLowerCase xs @ toLowerCase ys"
  by (simp add: toLowerCase_def)

lemma toLowerCase_slashes [simp]:
  "toLowerCase (replicate n (CHR ''/'')) = replicate n (CHR ''/'')"
  by (simp add: toLowerCase_def)

lemma toLowerCase_spaces: "list_all is_space xs \<Longrightarrow> list_all is_space (toLowerCase xs)"
  by (simp add: toLowerCase_def list_all_iff)

lemma dropWhile_run:
  "\<forall>x\<in>set xs. P x \<Longrightarrow> \<not> P y \<Longrightarrow> dropWhile P (xs @ y # ys) = y # ys"
  by (simp add: dropWhile_append3)

lemma trim_surrounded:
  assumes "list_all is_space pre" and "list_all is_space post"
    and "mid \<noteq> []" and "\<not> is_space (hd mid)" and "\<not> is_space (last mid)"
  shows "trim (pre @ mid @ post) = mid"
proof -
  have front: "dropWhile is_space (pre @ mid @ post) = mid @ post"
    using assms(1,3,4) by (cases mid) (simp_all add: list_all_iff dropWhile_run)
  have "dropWhile is_space (rev post @ rev mid) = rev mid"
    using assms(2,3,5) by (cases mid rule: rev_cases) (simp_all add: list_all_iff dropWhile_run)
  with front show ?thesis by (simp add: trim_def)
qed

lemma strip_trailing_slashes_run:
  assumes "core \<noteq> [] \<longrightarrow> last core \<noteq> CHR ''/''"
  shows "strip_trailing_slashes (core @ replicate n (CHR ''/'')) = core"
  using assms by (cases core rule: rev_cases) (simp_all add: strip_trailing_slashes_def dropWhile_run)

lemma strip_scheme_http: "strip_scheme (''http://'' @ s) = s"
  by (simp add: strip_scheme_def)

lemma strip_scheme_https: "strip_scheme (''https://'' @ s) = s"
  by (simp add: strip_scheme_def)

lemma normalizeUrl_lowercase:
  "c \<in> set (normalizeUrl s) \<Longrightarrow>
     \<not> ((65 \<le> (of_char c :: nat) \<and> (of_char c :: nat) \<le> 90)
        \<or> (192 \<le> (of_char c :: nat) \<and> (of_char c :: nat) \<le> 214)
        \<or> (216 \<le> (of_char c :: nat) \<and> (of_char c :: nat) \<le> 222))"
proof -
  assume "c \<in> set (normalizeUrl s)"
  then have "c \<in> set (strip_scheme (trim (toLowerCase s)))"
    by (auto simp add: normalizeUrl_def strip_trailing_slashes_def dest!: set_dropWhileD)
  then have "c \<in> set (trim (toLowerCase s))"
    by (auto simp add: strip_scheme_def split: if_splits dest: in_set_dropD)
  then have "c \<in> set (toLowerCase s)"
    by (auto simp add: trim_def dest!: set_dropWhileD)
  then obtain d where "c = lower_char d" by (auto simp add: toLowerCase_def)
  then show ?thesis by (auto simp add: of_char_lower_char)
qed

lemma normalizeUrl_no_trailing_slash:
  "normalizeUrl s = [] \<or> last (normalizeUrl s) \<noteq> CHR ''/''"
proof -
  let ?r = "rev (strip_scheme (trim (toLowerCase s)))"
  have "dropWhile (\<lambda>c. c = CHR ''/'') ?r \<noteq> [] \<Longrightarrow>
        hd (dropWhile (\<lambda>c. c = CHR ''/'') ?r) \<noteq> CHR ''/''"
    by (rule hd_dropWhile)
  then show ?thesis
    by (auto simp add: normalizeUrl_def strip_trailing_slashes_def last_rev)
qed

lemma lower_char_capital:
  assumes "c = d \<or> (65 \<le> (of_char c :: nat) \<and> (of_char c :: nat) \<le> 90
                    \<and> (of_char c :: nat) + 32 = of_char d)"
    and "lower_char d = d"
  shows "lower_char c = d"
proof (cases "c = d")
  case True
  with assms(2) show ?thesis by simp
next
  case False
  with assms(1) have c: "65 \<le> (of_char c :: nat)" "(of_char c :: nat) \<le> 90"
    and d: "(of_char c :: nat) + 32 = of_char d" by simp_all
  from c have "lower_char c = char_of ((of_char c :: nat) + 32)"
    by (simp add: lower_char_def)
  also have "\<dots> = char_of (of_char d :: nat)" by (simp only: d)
  also have "\<dots> = d" by simp
  finally show ?thesis .
qed

lemma list_all2_map:
  assumes "list_all2 R xs ys" and "\<And>c d. R c d \<Longrightarrow> d \<in> set ys \<Longrightarrow> f c = d"
  shows "map f xs = ys"
  using assms
proof (induction xs arbitrary: ys)
  case Nil
  then show ?case by simp
next
  case (Cons c xs)
  from Cons.prems(1) obtain d ds where ys: "ys = d # ds" and "R c d" and "list_all2 R xs ds"
    by (auto simp add: list_all2_Cons1)
  moreover from this Cons.prems(2) have "f c = d" by simp
  moreover have "map f xs = ds"
    using \<open>list_all2 R xs ds\<close> Cons.prems(2) ys by (intro Cons.IH) simp_all
  ultimately show ?case by simp
qed

lemma toLowerCase_capitals:
  assumes "list_all2 (\<lambda>c d. c = d \<or> (65 \<le> (of_char c :: nat) \<and> (of_char c :: nat) \<le> 90
                                   \<and> (of_char c :: nat) + 32 = of_char d)) xs ys"
    and "\<forall>d\<in>set ys. lower_char d = d"
  shows "toLowerCase xs = ys"
  unfolding toLowerCase_def using assms(1)
proof (rule list_all2_map)
  fix c d
  assume "c = d \<or> (65 \<le> (of_char c :: nat) \<and> (of_char c :: nat) \<le> 90
                    \<and> (of_char c :: nat) + 32 = of_char d)"
    and "d \<in> set ys"
  with assms(2) show "lower_char c = d"
    by (simp add: lower_char_capital)
qed

lemma lower_char_http: "\<forall>d\<in>set ''http://''. lower_char d = d"
  by (simp add: lower_char_def)

lemma lower_char_https: "\<forall>d\<in>set ''https://''. lower_char d = d"
  by (simp add: lower_char_def)

lemma normalizeUrl_parts:
  assumes "list_all is_space pre" and "list_all is_space post"
    and "toLowerCase scheme = ''http://'' \<or> toLowerCase scheme = ''https://''"
    and "core \<noteq> [] \<longrightarrow> \<not> is_space (last core) \<and> last core \<noteq> CHR ''/''"
  shows "normalizeUrl (pre @ scheme @ core @ replicate n (CHR ''/'') @ post) = toLowerCase core"
proof -
  let ?mid = "toLowerCase scheme @ toLowerCase core @ replicate n (CHR ''/'')"
  have hd_mid: "\<not> is_space (hd ?mid)" and ne: "?mid \<noteq> []"
    using assms(3) by (auto simp add: is_space_def)
  have last_core: "toLowerCase core \<noteq> [] \<longrightarrow>
      \<not> is_space (last (toLowerCase core)) \<and> last (toLowerCase core) \<noteq> CHR ''/''"
    using assms(4) by (simp add: toLowerCase_def last_map)
  have last_scheme: "last (toLowerCase scheme) = CHR ''/''"
    using assms(3) by auto
  have scheme_ne: "toLowerCase scheme \<noteq> []" using assms(3) by auto
  have last_mid: "\<not> is_space (last ?mid)"
  proof (cases "n = 0")
    case False
    then show ?thesis by simp
  next
    case True
    show ?thesis
    proof (cases "core = []")
      case True
      with \<open>n = 0\<close> last_scheme show ?thesis by (simp add: toLowerCase_def)
    next
      case False
      with \<open>n = 0\<close> last_core show ?thesis by (simp add: toLowerCase_def)
    qed
  qed
  have "trim (toLowerCase pre @ ?mid @ toLowerCase post) = ?mid"
    using toLowerCase_spaces [OF assms(1)] toLowerCase_spaces [OF assms(2)] ne hd_mid last_mid
    by (rule trim_surrounded)
  then have "trim (toLowerCase (pre @ scheme @ core @ replicate n (CHR ''/'') @ post)) = ?mid"
    by simp
  moreover have "strip_scheme ?mid = toLowerCase core @ replicate n (CHR ''/'')"
    using assms(3) strip_scheme_http strip_scheme_https by auto
  moreover have "strip_trailing_slashes (toLowerCase core @ replicate n (CHR ''/'')) = toLowerCase core"
    using last_core by (intro strip_trailing_slashes_run) simp
  ultimately show ?thesis
    by (simp add: normalizeUrl_def)
qed

text \<open>
  Claim C8. \<open>normalizeUrl\<close> lowercases its input, trims the white space around it, strips
  one leading \<open>http://\<close> or \<open>https://\<close> and strips the slashes at the end. Stated on the
  code points: take white space \<open>pre\<close> and \<open>post\<close> (code points 9 to 13, 32, 160), a
  \<open>scheme\<close> that is \<open>http://\<close> or \<open>https://\<close> with any of its letters capital, a \<open>core\<close>
  whose last character is neither white space nor a slash, and \<open>n\<close> slashes; then
  \<open>pre @ scheme @ core @ slashes @ post\<close> is normalised to the \<open>core\<close> with every capital
  letter (65..90, 192..214, 216..222) replaced by the letter 32 code points further and
  every other character kept. In particular \<open>HTTPS://Example.com/Path/\<close> and
  \<open>example.com/path\<close> are both normalised to \<open>example.com/path\<close>.
\<close>

theorem normalizeUrl_spec:
  assumes "\<forall>c\<in>set pre. (of_char c :: nat) \<in> {9, 10, 11, 12, 13, 32, 160}"
    and "\<forall>c\<in>set post. (of_char c :: nat) \<in> {9, 10, 11, 12, 13, 32, 160}"
    and "list_all2 (\<lambda>c d. c = d \<or> (65 \<le> (of_char c :: nat) \<and> (of_char c :: nat) \<le> 90
                                  \<and> (of_char c :: nat) + 32 = of_char d)) scheme ''http://''
         \<or> list_all2 (\<lambda>c d. c = d \<or> (65 \<le> (of_char c :: nat) \<and> (of_char c :: nat) \<le> 90
                                  \<and> (of_char c :: nat) + 32 = of_char d)) scheme ''https://''"
    and "core \<noteq> [] \<longrightarrow> (of_char (last core) :: nat) \<notin> {9, 10, 11, 12, 13, 32, 160, 47}"
  shows "normalizeUrl (pre @ scheme @ core @ replicate n (CHR ''/'') @ post) =
           map (\<lambda>c. if (65 \<le> (of_char c :: nat) \<and> (of_char c :: nat) \<le> 90)
                        \<or> (192 \<le> (of_char c :: nat) \<and> (of_char c :: nat) \<le> 214)
                        \<or> (216 \<le> (of_char c :: nat) \<and> (of_char c :: nat) \<le> 222)
                     then char_of ((of_char c :: nat) + 32) else c) core
         \<and> normalizeUrl ''HTTPS://Example.com/Path/'' = ''example.com/path''
         \<and> normalizeUrl ''example.com/path'' = ''example.com/path''"
proof (intro conjI)
  have pre: "list_all is_space pre" and post: "list_all is_space post"
    using assms(1,2) by (simp_all add: list_all_iff is_space_def)
  have scheme: "toLowerCase scheme = ''http://'' \<or> toLowerCase scheme = ''https://''"
    using assms(3) toLowerCase_capitals [OF _ lower_char_http]
      toLowerCase_capitals [OF _ lower_char_https]
    by blast
  have core: "core \<noteq> [] \<longrightarrow> \<not> is_space (last core) \<and> last core \<noteq> CHR ''/''"
    using assms(4) by (auto simp add: is_space_def slash_code)
  have "normalizeUrl (pre @ scheme @ core @ replicate n (CHR ''/'') @ post) = toLowerCase core"
    using pre post scheme core by (rule normalizeUrl_parts)
  then show "normalizeUrl (pre @ scheme @ core @ replicate n (CHR ''/'') @ post) =
           map (\<lambda>c. if (65 \<le> (of_char c :: nat) \<and> (of_char c :: nat) \<le> 90)
                        \<or> (192 \<le> (of_char c :: nat) \<and> (of_char c :: nat) \<le> 214)
                        \<or> (216 \<le> (of_char c :: nat) \<and> (of_char c :: nat) \<le> 222)
                     then char_of ((of_char c :: nat) + 32) else c) core"
    by (simp add: toLowerCase_def lower_char_def)
  show "normalizeUrl ''HTTPS://Example.com/Path/'' = ''example.com/path''"
    by code_simp
  show "normalizeUrl ''example.com/path'' = ''example.com/path''"
    by code_simp
qed

text \<open>
  The theorem at an input with a capital scheme, the capital letter U+00C9, two slashes and
  a no-break space at the end; and, evaluated, an input that ends in a slash and a no-break
  space.
\<close>

theorem normalizeUrl_spec_witness:
  "normalizeUrl ('' '' @ ''HTTPS://'' @ (''Example.com/'' @ [CHR 0xC9]) @ replicate 2 (CHR ''/'')
       @ [CHR 0xA0])
     = ''example.com/'' @ [CHR 0xE9]
   \<and> normalizeUrl (''https://example.com/a/'' @ [CHR 0xA0]) = ''example.com/a''"
proof -
  have h1: "\<forall>c\<in>set '' ''. (of_char c :: nat) \<in> {9, 10, 11, 12, 13, 32, 160}" by simp
  have h2: "\<forall>c\<in>set [CHR 0xA0]. (of_char c :: nat) \<in> {9, 10, 11, 12, 13, 32, 160}" by simp
  have h3: "list_all2 (\<lambda>c d. c = d \<or> (65 \<le> (of_char c :: nat) \<and> (of_char c :: nat) \<le> 90
                                  \<and> (of_char c :: nat) + 32 = of_char d)) ''HTTPS://'' ''http://''
         \<or> list_all2 (\<lambda>c d. c = d \<or> (65 \<le> (of_char c :: nat) \<and> (of_char c :: nat) \<le> 90
                                  \<and> (of_char c :: nat) + 32 = of_char d)) ''HTTPS://'' ''https://''"
    by simp
  have h4: "''Example.com/'' @ [CHR 0xC9] \<noteq> [] \<longrightarrow>
      (of_char (last (''Example.com/'' @ [CHR 0xC9])) :: nat) \<notin> {9, 10, 11, 12, 13, 32, 160, 47}"
    by simp
  have l: "map (\<lambda>c. if (65 \<le> (of_char c :: nat) \<and> (of_char c :: nat) \<le> 90)
                        \<or> (192 \<le> (of_char c :: nat) \<and> (of_char c :: nat) \<le> 214)
                        \<or> (216 \<le> (of_char c :: nat) \<and> (of_char c :: nat) \<le> 222)
                     then char_of ((of_char c :: nat) + 32) else c) (''Example.com/'' @ [CHR 0xC9])
           = ''example.com/'' @ [CHR 0xE9]"
    by code_simp
  have e: "normalizeUrl (''https://example.com/a/'' @ [CHR 0xA0]) = ''example.com/a''"
    by code_simp
  from normalizeUrl_spec [OF h1 h2 h3 h4, of 2] l e show ?thesis by simp
qed

section \<open>Properties of the handlers\<close>

subsection \<open>The steps of the handler\<close>

lemma find_in_set: "find P xs = Some x \<Longrightarrow> x \<in> set xs \<and> P x"
  by (induction xs) (auto split: if_splits)

lemma truthy_simps [simp]: "truthy None = False" "truthy (Some s) = (s \<noteq> [])"
  by (simp_all add: truthy_def)

lemma link_findFirst_found:
  assumes "link_findFirst env st n = Inr (Some l)"
  shows "\<exists>x\<in>set (chapterLink st). l = select_ref x \<and> link_url_normalized x = n
           \<and> link_deleted_at x = None"
proof -
  from assms obtain x where
    "find (\<lambda>l. link_url_normalized l = n \<and> link_deleted_at l = None) (chapterLink st) = Some x"
    and "l = select_ref x"
    by (auto simp add: link_findFirst_def split: if_splits)
  with find_in_set [of _ "chapterLink st" x] show ?thesis by blast
qed

lemma link_findUnique_found:
  assumes "link_findUnique env st i = Inr (Some l)"
  shows "\<exists>x\<in>set (chapterLink st). l = select_ref x \<and> link_id x = i"
proof -
  from assms obtain x where "find (\<lambda>l. link_id l = i) (chapterLink st) = Some x"
    and "l = select_ref x"
    by (auto simp add: link_findUnique_def split: if_splits)
  with find_in_set [of _ "chapterLink st" x] show ?thesis by blast
qed

lemma resolve_target_cases:
  assumes "resolve_target env st data = Inr (tid, Some l)"
  shows "(\<exists>n. link_findFirst env st n = Inr (Some l))
         \<or> (\<exists>i. link_findUnique env st i = Inr (Some l))"
proof (cases "truthy (target_url data) \<and> \<not> truthy (target_link_id data)")
  case True
  with assms show ?thesis
    by (auto simp add: resolve_target_def Let_def split: sum.splits)
next
  case False
  with assms show ?thesis
    by (auto simp add: resolve_target_def Let_def split: sum.splits option.splits if_splits)
qed

lemma resolve_target_found:
  assumes "resolve_target env st data = Inr (tid, Some l)"
  shows "ref_id l \<in> link_id ` set (chapterLink st)"
proof -
  from resolve_target_cases [OF assms] link_findFirst_found link_findUnique_found
  obtain x where "x \<in> set (chapterLink st)" and "l = select_ref x" by blast
  then show ?thesis by (auto simp add: select_ref_def)
qed

lemma request_create_ok:
  assumes "\<not> store_fails env RequestCreate"
    and "generated_id env \<notin> req_id ` set (dmcaRequest st)"
  shows "request_create env st data tid ref =
           Inr (claim_row env data tid ref,
                st\<lparr>dmcaRequest := dmcaRequest st @ [claim_row env data tid ref]\<rparr>)"
  using assms by (simp add: request_create_def Let_def)

lemma req_id_claim_row [simp]: "req_id (claim_row env data tid ref) = generated_id env"
  by (simp add: claim_row_def)

lemma req_status_claim_row [simp]: "req_status (claim_row env data tid ref) = ''pending''"
  by (simp add: claim_row_def)

lemma transaction_removal_ok:
  assumes "writes_ok env" and "ref_id l \<in> link_id ` set (chapterLink st)"
  shows "transaction env (removal env l ip claim data) st =
           Inr (st\<lparr>chapterLink := mark_removed env (ref_id l) (chapterLink st),
                   linkSubmissionAudit := linkSubmissionAudit st @ [removal_entry l ip claim data]\<rparr>)"
  using assms
  by (simp add: writes_ok_def transaction_def removal_def link_update_def audit_create_def)

lemma transaction_removal_fails:
  assumes "store_fails env LinkUpdate \<or> store_fails env AuditCreate
           \<or> store_fails env TransactionCommit"
  shows "\<exists>e. transaction env (removal env l ip claim data) st = Inl e"
  using assms
  by (auto simp add: transaction_def removal_def link_update_def audit_create_def
        split: sum.splits)

lemma process_claim_removed:
  assumes "resolve_target env st data = Inr (tid, Some l)"
    and "writes_ok env"
    and "generated_id env \<notin> req_id ` set (dmcaRequest st)"
  shows "process_claim env ip st data =
           (submitted (generated_id env) True,
            \<lparr>chapterLink = mark_removed env (ref_id l) (chapterLink st),
             dmcaRequest = mark_processing (generated_id env)
                             (dmcaRequest st @ [claim_row env data tid (Some l)]),
             linkSubmissionAudit = linkSubmissionAudit st
                             @ [removal_entry l ip (claim_row env data tid (Some l)) data]\<rparr>)"
proof -
  let ?row = "claim_row env data tid (Some l)"
  let ?st1 = "st\<lparr>dmcaRequest := dmcaRequest st @ [?row]\<rparr>"
  have ok: "\<not> store_fails env RequestCreate" "\<not> store_fails env RequestUpdate"
    using assms(2) by (simp_all add: writes_ok_def)
  have create: "request_create env st data tid (Some l) = Inr (?row, ?st1)"
    using ok(1) assms(3) by (rule request_create_ok)
  have "ref_id l \<in> link_id ` set (chapterLink ?st1)"
    using resolve_target_found [OF assms(1)] by simp
  with assms(2) have tx: "transaction env (removal env l ip ?row data) ?st1 =
      Inr (?st1\<lparr>chapterLink := mark_removed env (ref_id l) (chapterLink ?st1),
                linkSubmissionAudit := linkSubmissionAudit ?st1 @ [removal_entry l ip ?row data]\<rparr>)"
    by (rule transaction_removal_ok)
  show ?thesis
    using assms(1) create tx ok(2)
    by (simp add: process_claim_def request_update_def)
qed

lemma process_claim_unresolved:
  assumes "resolve_target env st data = Inr (tid, None)"
    and "\<not> store_fails env RequestCreate"
    and "generated_id env \<notin> req_id ` set (dmcaRequest st)"
  shows "process_claim env ip st data =
           (submitted (generated_id env) False,
            st\<lparr>dmcaRequest := dmcaRequest st @ [claim_row env data tid None]\<rparr>)"
  using assms(1) request_create_ok [OF assms(2,3)]
  by (simp add: process_claim_def)

lemma process_claim_transaction_fails:
  assumes "resolve_target env st data = Inr (tid, Some l)"
    and "\<not> store_fails env RequestCreate"
    and "generated_id env \<notin> req_id ` set (dmcaRequest st)"
    and "store_fails env LinkUpdate \<or> store_fails env AuditCreate
         \<or> store_fails env TransactionCommit"
  shows "process_claim env ip st data =
           (internal_error,
            st\<lparr>dmcaRequest := dmcaRequest st @ [claim_row env data tid (Some l)]\<rparr>)"
proof -
  let ?row = "claim_row env data tid (Some l)"
  let ?st1 = "st\<lparr>dmcaRequest := dmcaRequest st @ [?row]\<rparr>"
  have create: "request_create env st data tid (Some l) = Inr (?row, ?st1)"
    using assms(2,3) by (rule request_create_ok)
  from transaction_removal_fails [OF assms(4)]
  obtain e where "transaction env (removal env l ip ?row data) ?st1 = Inl e" by blast
  with assms(1) create show ?thesis
    by (simp add: process_claim_def)
qed

lemma POST_valid:
  assumes "fst (checkRateLimit rl (client_ip request) (date_now env))"
    and "body_json request = Some b"
    and "safeParse env b = Some data"
  shows "POST env rl st request =
           (fst (process_claim env (client_ip request) st data),
            snd (checkRateLimit rl (client_ip request) (date_now env)),
            snd (process_claim env (client_ip request) st data))"
proof -
  obtain a rl' where c: "checkRateLimit rl (client_ip request) (date_now env) = (a, rl')"
    by (cases "checkRateLimit rl (client_ip request) (date_now env)")
  with assms(1) have "a" by simp
  with c assms(2,3) show ?thesis
    by (simp add: POST_def Let_def split: prod.splits)
qed

lemma mark_removed_Nil [simp]: "mark_removed env i [] = []"
  by (simp add: mark_removed_def)

lemma mark_removed_Cons [simp]:
  "mark_removed env i (a # links) =
     (if link_id a = i
      then a\<lparr>link_status := ''removed'', link_deleted_at := Some (new_date env)\<rparr>
      else a) # mark_removed env i links"
  by (simp add: mark_removed_def)

lemma mark_removed_row:
  assumes "x \<in> set (mark_removed env i links)" and "link_id x = i"
  shows "link_status x = ''removed'' \<and> link_deleted_at x = Some (new_date env)"
  using assms
proof (induction links)
  case Nil
  then show ?case by simp
next
  case (Cons a links)
  show ?case
  proof (cases "x \<in> set (mark_removed env i links)")
    case True
    then show ?thesis using Cons.IH Cons.prems(2) by blast
  next
    case False
    with Cons.prems(1) have x: "x = (if link_id a = i
      then a\<lparr>link_status := ''removed'', link_deleted_at := Some (new_date env)\<rparr>
      else a)" by simp
    show ?thesis
    proof (cases "link_id a = i")
      case True
      with x have "x = a\<lparr>link_status := ''removed'', link_deleted_at := Some (new_date env)\<rparr>"
        by metis
      then show ?thesis by simp
    next
      case False
      with x have "x = a" by metis
      with False Cons.prems(2) show ?thesis by blast
    qed
  qed
qed

lemma map_link_id_mark_removed: "map link_id (mark_removed env i links) = map link_id links"
  by (induction links) simp_all

lemma mark_removed_ids: "link_id ` set (mark_removed env i links) = link_id ` set links"
proof -
  have "link_id ` set (mark_removed env i links) = set (map link_id (mark_removed env i links))"
    by simp
  also have "\<dots> = set (map link_id links)"
    by (simp only: map_link_id_mark_removed)
  finally show ?thesis by simp
qed

lemma mark_processing_Nil [simp]: "mark_processing i [] = []"
  by (simp add: mark_processing_def)

lemma mark_processing_Cons [simp]:
  "mark_processing i (r # claims) =
     (if req_id r = i then r\<lparr>req_status := ''processing''\<rparr> else r) # mark_processing i claims"
  by (simp add: mark_processing_def)

lemma mark_processing_append [simp]:
  "mark_processing i (xs @ ys) = mark_processing i xs @ mark_processing i ys"
  by (simp add: mark_processing_def)

lemma mark_processing_other:
  "i \<notin> req_id ` set claims \<Longrightarrow> mark_processing i claims = claims"
  by (induction claims) auto

lemma map_req_id_mark_processing: "map req_id (mark_processing i claims) = map req_id claims"
  by (induction claims) simp_all

subsection \<open>The example submission\<close>

lemma example_admitted:
  "fst (checkRateLimit Map.empty (client_ip example_request) (date_now example_env))"
  by (simp add: checkRateLimit_def)

lemma example_parse: "safeParse example_env (Object example_body) = Some example_data"
  by code_simp

lemma example_normalized: "normalizeUrl ''https://Example.com/ch/1/'' = ''example.com/ch/1''"
  by code_simp

lemma example_resolve:
  "resolve_target example_env example_store example_data
     = Inr (Some ''11111111-1111-4111-8111-111111111111'', Some (select_ref example_link))"
  by code_simp

lemma example_writes_ok: "writes_ok example_env"
  by (simp add: writes_ok_def example_env_def)

lemma example_fresh: "generated_id example_env \<notin> req_id ` set (dmcaRequest example_store)"
  by (simp add: example_store_def)

lemma example_audits: "audits_name_claims example_store"
  by (simp add: audits_name_claims_def example_store_def)

subsection \<open>An invariant of the store\<close>

text \<open>
  Every audit entry names a claim of the store: the handler writes an audit entry only for
  the claim it has just created, so \<open>process_claim\<close> keeps this on every path, the failing
  ones included.
\<close>

lemma audits_name_claims_add_claim:
  "audits_name_claims st \<Longrightarrow> audits_name_claims (st\<lparr>dmcaRequest := dmcaRequest st @ [row]\<rparr>)"
  by (auto simp add: audits_name_claims_def list_all_iff)

lemma audits_name_claims_removal:
  assumes "audits_name_claims st"
    and "dmca_request_id (payload e) \<in> req_id ` set (dmcaRequest st)"
  shows "audits_name_claims
           (st\<lparr>chapterLink := links, linkSubmissionAudit := linkSubmissionAudit st @ [e]\<rparr>)"
  using assms by (auto simp add: audits_name_claims_def list_all_iff)

lemma audits_name_claims_processing:
  assumes "audits_name_claims st"
  shows "audits_name_claims (st\<lparr>dmcaRequest := mark_processing i (dmcaRequest st)\<rparr>)"
proof -
  have "req_id ` set (mark_processing i (dmcaRequest st)) = set (map req_id (mark_processing i (dmcaRequest st)))"
    by simp
  also have "\<dots> = req_id ` set (dmcaRequest st)"
    by (simp only: map_req_id_mark_processing) simp
  finally show ?thesis
    using assms by (simp add: audits_name_claims_def)
qed

lemma request_create_result:
  assumes "request_create env st data tid ref = Inr (row, st1)"
  shows "st1 = st\<lparr>dmcaRequest := dmcaRequest st @ [row]\<rparr>"
  using assms by (auto simp add: request_create_def Let_def split: if_splits)

lemma transaction_removal_result:
  assumes "transaction env (removal env l ip claim data) st = Inr st2"
  shows "st2 = st\<lparr>chapterLink := mark_removed env (ref_id l) (chapterLink st),
                  linkSubmissionAudit := linkSubmissionAudit st @ [removal_entry l ip claim data]\<rparr>"
  using assms
  by (auto simp add: transaction_def removal_def link_update_def audit_create_def
        split: if_splits sum.splits)

lemma request_update_result:
  assumes "request_update env st i = Inr st3"
  shows "st3 = st\<lparr>dmcaRequest := mark_processing i (dmcaRequest st)\<rparr>"
  using assms by (auto simp add: request_update_def split: if_splits)

lemma process_claim_audits_name_claims:
  assumes "audits_name_claims st"
  shows "audits_name_claims (snd (process_claim env ip st data))"
proof (cases "resolve_target env st data")
  case (Inl e)
  with assms show ?thesis by (simp add: process_claim_def)
next
  case (Inr found)
  obtain tid ref where found: "found = (tid, ref)" by (cases found)
  show ?thesis
  proof (cases "request_create env st data tid ref")
    case (Inl e)
    with Inr found assms show ?thesis by (simp add: process_claim_def)
  next
    case created: (Inr res)
    obtain row st1 where res: "res = (row, st1)" by (cases res)
    have st1: "st1 = st\<lparr>dmcaRequest := dmcaRequest st @ [row]\<rparr>"
      using created res by (intro request_create_result [of env st data tid ref row]) simp
    have inv1: "audits_name_claims st1"
      unfolding st1 using assms by (rule audits_name_claims_add_claim)
    show ?thesis
    proof (cases ref)
      case None
      with Inr found created res inv1 show ?thesis by (simp add: process_claim_def)
    next
      case (Some l)
      show ?thesis
      proof (cases "transaction env (removal env l ip row data) st1")
        case (Inl e)
        with Inr found created res Some inv1 show ?thesis by (simp add: process_claim_def)
      next
        case committed: (Inr st2)
        have st2: "st2 = st1\<lparr>chapterLink := mark_removed env (ref_id l) (chapterLink st1),
            linkSubmissionAudit := linkSubmissionAudit st1 @ [removal_entry l ip row data]\<rparr>"
          using committed by (rule transaction_removal_result)
        have "dmca_request_id (payload (removal_entry l ip row data)) \<in> req_id ` set (dmcaRequest st1)"
          by (simp add: removal_entry_def st1)
        with inv1 have inv2: "audits_name_claims st2"
          unfolding st2 by (rule audits_name_claims_removal)
        show ?thesis
        proof (cases "request_update env st2 (req_id row)")
          case (Inl e)
          with Inr found created res Some committed inv2 show ?thesis
            by (simp add: process_claim_def)
        next
          case updated: (Inr st3)
          have "st3 = st2\<lparr>dmcaRequest := mark_processing (req_id row) (dmcaRequest st2)\<rparr>"
            using updated by (rule request_update_result)
          with inv2 have "audits_name_claims st3"
            by (simp only: audits_name_claims_processing)
          with Inr found created res Some committed updated show ?thesis
            by (simp add: process_claim_def)
        qed
      qed
    qed
  qed
qed

subsection \<open>Submissions\<close>

lemma removal_entries_fresh:
  assumes "audits_name_claims st" and "claim \<notin> req_id ` set (dmcaRequest st)"
  shows "removal_entries st link claim = []"
proof -
  have "dmca_request_id (payload a) \<noteq> claim" if "a \<in> set (linkSubmissionAudit st)" for a
    using assms that by (auto simp add: audits_name_claims_def list_all_iff)
  then show ?thesis
    by (simp add: removal_entries_def filter_empty_conv)
qed

text \<open>
  Claim C3. An admitted, valid submission whose target resolves to the link \<open>l\<close>, on a
  store whose calls succeed, where the id of the new claim is not taken and every audit
  entry names a stored claim: the answer is the 201 with \<open>link_removed: true\<close>; the link
  is in the store, with status \<open>removed\<close> and the deletion time \<open>new Date()\<close>; exactly one
  audit entry of action \<open>dmca_remove\<close> names both the link and the claim; and the claim is
  stored with status \<open>processing\<close>.
\<close>

theorem resolved_target_is_removed:
  assumes "fst (checkRateLimit rl (client_ip request) (date_now env))"
    and "body_json request = Some b"
    and "safeParse env b = Some data"
    and "resolve_target env st data = Inr (tid, Some l)"
    and "writes_ok env"
    and "generated_id env \<notin> req_id ` set (dmcaRequest st)"
    and "audits_name_claims st"
    and "POST env rl st request = (resp, rl', st')"
  shows "resp = submitted (generated_id env) True
         \<and> status resp = 201
         \<and> ref_id l \<in> link_id ` set (chapterLink st')
         \<and> (\<forall>x\<in>set (chapterLink st'). link_id x = ref_id l \<longrightarrow>
               link_status x = ''removed'' \<and> link_deleted_at x = Some (new_date env))
         \<and> length (removal_entries st' (ref_id l) (generated_id env)) = 1
         \<and> dmcaRequest st' =
             dmcaRequest st @ [(claim_row env data tid (Some l))\<lparr>req_status := ''processing''\<rparr>]"
proof -
  let ?ip = "client_ip request"
  let ?row = "claim_row env data tid (Some l)"
  let ?entry = "removal_entry l ?ip ?row data"
  have "(resp, st') = process_claim env ?ip st data"
    using POST_valid [OF assms(1,2,3), of st] assms(8) by simp
  then have resp: "resp = submitted (generated_id env) True"
    and st': "st' = \<lparr>chapterLink = mark_removed env (ref_id l) (chapterLink st),
                     dmcaRequest = mark_processing (generated_id env) (dmcaRequest st @ [?row]),
                     linkSubmissionAudit = linkSubmissionAudit st @ [?entry]\<rparr>"
    using process_claim_removed [OF assms(4,5,6), of ?ip] by simp_all
  have links: "chapterLink st' = mark_removed env (ref_id l) (chapterLink st)"
    and claims: "dmcaRequest st' = mark_processing (generated_id env) (dmcaRequest st @ [?row])"
    and audits: "linkSubmissionAudit st' = linkSubmissionAudit st @ [?entry]"
    by (simp_all add: st')
  have present: "ref_id l \<in> link_id ` set (chapterLink st')"
    using resolve_target_found [OF assms(4)] by (simp only: links mark_removed_ids)
  have removed: "\<forall>x\<in>set (chapterLink st'). link_id x = ref_id l \<longrightarrow>
      link_status x = ''removed'' \<and> link_deleted_at x = Some (new_date env)"
    using mark_removed_row [of _ env "ref_id l" "chapterLink st"] by (simp only: links) blast
  have "removal_entries st (ref_id l) (generated_id env) = []"
    using assms(7,6) by (rule removal_entries_fresh)
  then have "removal_entries st' (ref_id l) (generated_id env) = [?entry]"
    by (simp add: removal_entries_def audits removal_entry_def)
  then have one: "length (removal_entries st' (ref_id l) (generated_id env)) = 1"
    by simp
  have "mark_processing (generated_id env) (dmcaRequest st) = dmcaRequest st"
    using assms(6) by (rule mark_processing_other)
  then have status: "dmcaRequest st' = dmcaRequest st @ [?row\<lparr>req_status := ''processing''\<rparr>]"
    by (simp add: claims)
  have created: "status resp = 201"
    by (simp add: resp submitted_def)
  from resp created present removed one status show ?thesis by blast
qed

theorem resolved_target_is_removed_witness:
  "fst (POST example_env Map.empty example_store example_request)
     = submitted ''22222222-2222-4222-8222-222222222222'' True
   \<and> length (removal_entries (snd (snd (POST example_env Map.empty example_store example_request)))
        ''11111111-1111-4111-8111-111111111111'' ''22222222-2222-4222-8222-222222222222'') = 1
   \<and> map req_status (dmcaRequest (snd (snd (POST example_env Map.empty example_store example_request))))
     = [''processing'']"
proof -
  have h: "POST example_env Map.empty example_store example_request =
      (fst (POST example_env Map.empty example_store example_request),
       fst (snd (POST example_env Map.empty example_store example_request)),
       snd (snd (POST example_env Map.empty example_store example_request)))"
    by simp
  have b: "body_json example_request = Some (Object example_body)"
    by (simp add: example_request_def)
  have g: "generated_id example_env = ''22222222-2222-4222-8222-222222222222''"
    by (simp add: example_env_def)
  have r: "ref_id (select_ref example_link) = ''11111111-1111-4111-8111-111111111111''"
    by (simp add: select_ref_def example_link_def)
  from resolved_target_is_removed [OF example_admitted b example_parse example_resolve
      example_writes_ok example_fresh example_audits h]
  show ?thesis
    by (simp add: g r example_store_def)
qed

text \<open>
  Claim C7. An admitted, valid submission whose target does not resolve, where the claim
  can be created: the answer has status 201 and the body \<open>{success: true, message,
  request_id, link_removed: false}\<close> with the id of the new claim, the links and the
  audit entries of the store are as before, and the one new row of \<open>dmcaRequest\<close> has
  status \<open>pending\<close>.
\<close>

theorem unresolved_target_leaves_links:
  assumes "fst (checkRateLimit rl (client_ip request) (date_now env))"
    and "body_json request = Some b"
    and "safeParse env b = Some data"
    and "resolve_target env st data = Inr (tid, None)"
    and "\<not> store_fails env RequestCreate"
    and "generated_id env \<notin> req_id ` set (dmcaRequest st)"
    and "POST env rl st request = (resp, rl', st')"
  shows "resp = submitted (generated_id env) False
         \<and> status resp = 201
         \<and> content resp =
             Submitted ''DMCA request received. Our team will review and take appropriate action.''
               (generated_id env) False
         \<and> chapterLink st' = chapterLink st
         \<and> linkSubmissionAudit st' = linkSubmissionAudit st
         \<and> dmcaRequest st' = dmcaRequest st @ [claim_row env data tid None]
         \<and> req_status (claim_row env data tid None) = ''pending''"
proof -
  have "(resp, st') = process_claim env (client_ip request) st data"
    using POST_valid [OF assms(1,2,3), of st] assms(7) by simp
  then have "resp = submitted (generated_id env) False"
    and "st' = st\<lparr>dmcaRequest := dmcaRequest st @ [claim_row env data tid None]\<rparr>"
    using process_claim_unresolved [OF assms(4,5,6), of "client_ip request"] by simp_all
  then show ?thesis by (simp add: submitted_def)
qed

lemma unknown_url_parse:
  "safeParse example_env
     (Object (example_body\<lparr>raw_target_url := Some (JString ''https://example.com/ch/2'')\<rparr>))
   = Some unknown_url_data"
  by code_simp

lemma unknown_url_resolve:
  "resolve_target example_env example_store unknown_url_data = Inr (None, None)"
  by code_simp

theorem unresolved_target_leaves_links_witness:
  "fst (POST example_env Map.empty example_store unknown_url_request)
     = \<lparr>status = 201,
        content = Submitted
          ''DMCA request received. Our team will review and take appropriate action.''
          ''22222222-2222-4222-8222-222222222222'' False\<rparr>
   \<and> chapterLink (snd (snd (POST example_env Map.empty example_store unknown_url_request)))
     = [example_link]
   \<and> linkSubmissionAudit (snd (snd (POST example_env Map.empty example_store unknown_url_request)))
     = []
   \<and> map req_status (dmcaRequest (snd (snd (POST example_env Map.empty example_store unknown_url_request))))
     = [''pending'']"
proof -
  have h: "POST example_env Map.empty example_store unknown_url_request =
      (fst (POST example_env Map.empty example_store unknown_url_request),
       fst (snd (POST example_env Map.empty example_store unknown_url_request)),
       snd (snd (POST example_env Map.empty example_store unknown_url_request)))"
    by simp
  have a: "fst (checkRateLimit Map.empty (client_ip unknown_url_request) (date_now example_env))"
    by (simp add: checkRateLimit_def)
  have b: "body_json unknown_url_request =
      Some (Object (example_body\<lparr>raw_target_url := Some (JString ''https://example.com/ch/2'')\<rparr>))"
    by (simp add: unknown_url_request_def)
  have c: "\<not> store_fails example_env RequestCreate"
    by (simp add: example_env_def)
  have g: "generated_id example_env = ''22222222-2222-4222-8222-222222222222''"
    by (simp add: example_env_def)
  from unresolved_target_leaves_links [OF a b unknown_url_parse unknown_url_resolve c example_fresh h]
  show ?thesis
    by (simp add: g example_store_def submitted_def)
qed

text \<open>
  Claim C2. An admitted, valid submission whose target resolves and whose claim is created,
  where the update of the link, the creation of the audit entry or the commit of the
  transaction fails: the answer is the generic 500, the links and the audit entries of the
  store are exactly as before the attempt, and the claim created before the transaction
  stays in the store with status \<open>pending\<close>.
\<close>

theorem failed_removal_is_atomic:
  assumes "fst (checkRateLimit rl (client_ip request) (date_now env))"
    and "body_json request = Some b"
    and "safeParse env b = Some data"
    and "resolve_target env st data = Inr (tid, Some l)"
    and "\<not> store_fails env RequestCreate"
    and "generated_id env \<notin> req_id ` set (dmcaRequest st)"
    and "store_fails env LinkUpdate \<or> store_fails env AuditCreate
         \<or> store_fails env TransactionCommit"
    and "POST env rl st request = (resp, rl', st')"
  shows "resp = internal_error
         \<and> status resp = 500
         \<and> chapterLink st' = chapterLink st
         \<and> linkSubmissionAudit st' = linkSubmissionAudit st
         \<and> dmcaRequest st' = dmcaRequest st @ [claim_row env data tid (Some l)]
         \<and> req_status (claim_row env data tid (Some l)) = ''pending''"
proof -
  have "(resp, st') = process_claim env (client_ip request) st data"
    using POST_valid [OF assms(1,2,3), of st] assms(8) by simp
  then have "resp = internal_error"
    and "st' = st\<lparr>dmcaRequest := dmcaRequest st @ [claim_row env data tid (Some l)]\<rparr>"
    using process_claim_transaction_fails [OF assms(4,5,6,7), of "client_ip request"] by simp_all
  then show ?thesis by (simp add: internal_error_def)
qed

lemma failing_resolve:
  "resolve_target failing_env example_store example_data
     = Inr (Some ''11111111-1111-4111-8111-111111111111'', Some (select_ref example_link))"
  by code_simp

lemma failing_parse: "safeParse failing_env (Object example_body) = Some example_data"
  by code_simp

theorem failed_removal_is_atomic_witness:
  "store_fails failing_env AuditCreate
   \<and> fst (POST failing_env Map.empty example_store example_request) = internal_error
   \<and> chapterLink (snd (snd (POST failing_env Map.empty example_store example_request)))
     = [example_link]
   \<and> linkSubmissionAudit (snd (snd (POST failing_env Map.empty example_store example_request)))
     = []
   \<and> map req_status (dmcaRequest (snd (snd (POST failing_env Map.empty example_store example_request))))
     = [''pending'']"
proof -
  have h: "POST failing_env Map.empty example_store example_request =
      (fst (POST failing_env Map.empty example_store example_request),
       fst (snd (POST failing_env Map.empty example_store example_request)),
       snd (snd (POST failing_env Map.empty example_store example_request)))"
    by simp
  have a: "fst (checkRateLimit Map.empty (client_ip example_request) (date_now failing_env))"
    by (simp add: checkRateLimit_def)
  have b: "body_json example_request = Some (Object example_body)"
    by (simp add: example_request_def)
  have c: "\<not> store_fails failing_env RequestCreate"
    by (simp add: failing_env_def)
  have f: "generated_id failing_env \<notin> req_id ` set (dmcaRequest example_store)"
    by (simp add: example_store_def)
  have d: "store_fails failing_env LinkUpdate \<or> store_fails failing_env AuditCreate
         \<or> store_fails failing_env TransactionCommit"
    by (simp add: failing_env_def)
  have e: "store_fails failing_env AuditCreate"
    by (simp add: failing_env_def)
  from failed_removal_is_atomic [OF a b failing_parse failing_resolve c f d h] e
  show ?thesis
    by (simp add: example_store_def)
qed

text \<open>
  Claim C10. An admitted submission whose body is not JSON: \<open>request.json()\<close> throws inside
  the \<open>try\<close>, before the validation, so the answer is the generic 500 of the \<open>catch\<close> and
  not the 400 of the validation; the store is not touched.
\<close>

theorem unparseable_body_is_internal_error:
  assumes "fst (checkRateLimit rl (client_ip request) (date_now env))"
    and "body_json request = None"
  shows "POST env rl st request =
           (internal_error, snd (checkRateLimit rl (client_ip request) (date_now env)), st)
         \<and> status internal_error = 500
         \<and> internal_error \<noteq> validation_failed"
proof -
  obtain a rl' where c: "checkRateLimit rl (client_ip request) (date_now env) = (a, rl')"
    by (cases "checkRateLimit rl (client_ip request) (date_now env)")
  with assms(1) have "a" by simp
  with c assms(2) have "POST env rl st request = (internal_error, rl', st)"
    by (simp add: POST_def Let_def)
  with c show ?thesis
    by (simp add: internal_error_def validation_failed_def)
qed

theorem unparseable_body_is_internal_error_witness:
  "body_json unparseable_request = None
   \<and> fst (POST example_env Map.empty example_store unparseable_request) = internal_error
   \<and> status (fst (POST example_env Map.empty example_store unparseable_request)) = 500
   \<and> snd (snd (POST example_env Map.empty example_store unparseable_request)) = example_store"
proof -
  have a: "fst (checkRateLimit Map.empty (client_ip unparseable_request) (date_now example_env))"
    by (simp add: checkRateLimit_def)
  have b: "body_json unparseable_request = None"
    by (simp add: unparseable_request_def)
  from unparseable_body_is_internal_error [OF a b, of example_store] b
  show ?thesis by simp
qed

subsection \<open>Status lookup\<close>

lemma request_findFirst_none:
  assumes "\<not> store_fails env RequestFindFirst"
    and "\<forall>r\<in>set (dmcaRequest st). req_id r = requestId \<longrightarrow> req_requester_contact r \<noteq> email"
  shows "request_findFirst env st requestId email = Inr None"
proof -
  have "find (\<lambda>r. req_id r = requestId \<and> req_requester_contact r = email) (dmcaRequest st) = None"
    using assms(2) by (simp add: find_None_iff)
  with assms(1) show ?thesis by (simp add: request_findFirst_def)
qed

text \<open>
  Claim C6. The status lookup, with both parameters supplied and a store that answers: on a
  store \<open>st1\<close> with no claim of that id, and on a store \<open>st2\<close> where the claims of that id
  have another contact, the answer is the same 404 with the same body.
\<close>

theorem status_lookup_not_found:
  assumes "\<forall>r\<in>set (dmcaRequest st1). req_id r \<noteq> requestId"
    and "\<exists>r\<in>set (dmcaRequest st2). req_id r = requestId"
    and "\<forall>r\<in>set (dmcaRequest st2). req_id r = requestId \<longrightarrow> req_requester_contact r \<noteq> email"
    and "requestId \<noteq> []" and "email \<noteq> []"
    and "\<not> store_fails env RequestFindFirst"
  shows "GET env st1 (Some requestId) (Some email) = not_found
         \<and> GET env st2 (Some requestId) (Some email) = not_found
         \<and> status not_found = 404"
proof -
  have "request_findFirst env st1 requestId email = Inr None"
    using assms(6,1) by (intro request_findFirst_none) simp_all
  moreover have "request_findFirst env st2 requestId email = Inr None"
    using assms(6,3) by (rule request_findFirst_none)
  ultimately show ?thesis
    using assms(4,5) by (simp add: GET_def not_found_def)
qed

theorem status_lookup_not_found_witness:
  "GET example_env example_store (Some ''22222222-2222-4222-8222-222222222222'') (Some ''b@x.com'')
     = not_found
   \<and> GET example_env processed_store (Some ''22222222-2222-4222-8222-222222222222'') (Some ''b@x.com'')
     = not_found
   \<and> status (GET example_env processed_store (Some ''22222222-2222-4222-8222-222222222222'')
        (Some ''a@x.com'')) = 200"
proof -
  have h1: "\<forall>r\<in>set (dmcaRequest example_store). req_id r \<noteq> ''22222222-2222-4222-8222-222222222222''"
    by (simp add: example_store_def)
  have h2: "\<exists>r\<in>set (dmcaRequest processed_store). req_id r = ''22222222-2222-4222-8222-222222222222''"
    by (simp add: processed_store_def example_env_def)
  have h3: "\<forall>r\<in>set (dmcaRequest processed_store).
      req_id r = ''22222222-2222-4222-8222-222222222222'' \<longrightarrow> req_requester_contact r \<noteq> ''b@x.com''"
    by (simp add: processed_store_def claim_row_def example_data_def)
  have h4: "''22222222-2222-4222-8222-222222222222'' \<noteq> []" by simp
  have h5: "''b@x.com'' \<noteq> []" by simp
  have h6: "\<not> store_fails example_env RequestFindFirst" by (simp add: example_env_def)
  have ok: "status (GET example_env processed_store (Some ''22222222-2222-4222-8222-222222222222'')
        (Some ''a@x.com'')) = 200"
    by code_simp
  from status_lookup_not_found [OF h1 h2 h3 h4 h5 h6] ok show ?thesis by simp
qed

subsection \<open>Resolution by URL and by id\<close>

text \<open>
  Claim C5, as stated, says that the link resolved by URL is fixed by the rows of the catalog
  (for instance the lowest id). The lookup asks the store for no order, so the answer is
  the first match in the scan order of the store: two stores with the same rows,
  \<open>store_ab\<close> and \<open>store_ba\<close>, resolve the same submission to different links, and on
  \<open>store_ba\<close> the resolved link is not the one with the lowest id.
\<close>

theorem resolve_by_url_scan_order:
  "set (chapterLink store_ab) = set (chapterLink store_ba)
   \<and> resolve_target example_env store_ab example_data
       = Inr (Some ''11111111-1111-4111-8111-111111111111'', Some (select_ref example_link))
   \<and> resolve_target example_env store_ba example_data
       = Inr (Some ''33333333-3333-4333-8333-333333333333'', Some (select_ref twin_link))
   \<and> resolve_target example_env store_ab example_data
       \<noteq> resolve_target example_env store_ba example_data"
proof -
  have s: "set (chapterLink store_ab) = set (chapterLink store_ba)"
    by (auto simp add: store_ab_def store_ba_def)
  have a: "resolve_target example_env store_ab example_data
       = Inr (Some ''11111111-1111-4111-8111-111111111111'', Some (select_ref example_link))"
    by code_simp
  have b: "resolve_target example_env store_ba example_data
       = Inr (Some ''33333333-3333-4333-8333-333333333333'', Some (select_ref twin_link))"
    by code_simp
  from s a b show ?thesis by simp
qed

lemma find_filter_first: "filter P xs = l # rest \<Longrightarrow> find P xs = Some l"
  by (induction xs) (auto split: if_splits)

lemma find_only_match:
  assumes "filter P xs = [l]" and "set ys = set xs"
  shows "find P ys = Some l"
proof -
  have "l \<in> set (filter P xs)"
    using assms(1) by simp
  then have l: "l \<in> set xs" "P l"
    by simp_all
  have only: "z = l" if "z \<in> set xs" "P z" for z
  proof -
    from that have "z \<in> set (filter P xs)" by simp
    with assms(1) show ?thesis by simp
  qed
  from l assms(2) have "find P ys \<noteq> None"
    by (auto simp add: find_None_iff)
  then obtain z where z: "find P ys = Some z" by blast
  from find_in_set [OF z] assms(2) only have "z = l" by blast
  with z show ?thesis by simp
qed

lemma resolve_by_url:
  assumes "target_url data = Some u" and "u \<noteq> []" and "\<not> truthy (target_link_id data)"
    and "\<not> store_fails env LinkFindFirst"
    and "find (\<lambda>x. link_url_normalized x = normalizeUrl u \<and> link_deleted_at x = None)
           (chapterLink st) = Some l"
  shows "resolve_target env st data = Inr (Some (link_id l), Some (select_ref l))"
  using assms
  by (simp add: resolve_target_def link_findFirst_def or_else_def select_ref_def)

text \<open>
  Claim C5, amended. Resolving by URL returns the first row, in the scan order of the store,
  among the links that are not deleted and have the normalised URL of the submission; when
  exactly one such link is in the store, that link is returned in every store with the same
  rows, whatever their order.
\<close>

theorem resolve_by_url_first_match:
  assumes "target_url data = Some u" and "u \<noteq> []" and "\<not> truthy (target_link_id data)"
    and "\<not> store_fails env LinkFindFirst"
    and "filter (\<lambda>x. link_url_normalized x = normalizeUrl u \<and> link_deleted_at x = None)
           (chapterLink st) = l # rest"
  shows "resolve_target env st data = Inr (Some (link_id l), Some (select_ref l))
         \<and> (rest = [] \<longrightarrow>
              (\<forall>st'. set (chapterLink st') = set (chapterLink st) \<longrightarrow>
                 resolve_target env st' data = Inr (Some (link_id l), Some (select_ref l))))"
proof (intro conjI impI allI)
  show "resolve_target env st data = Inr (Some (link_id l), Some (select_ref l))"
    using assms(1-4) find_filter_first [OF assms(5)] by (rule resolve_by_url)
next
  fix st' :: store
  assume "rest = []" and "set (chapterLink st') = set (chapterLink st)"
  with assms(5) have
    "find (\<lambda>x. link_url_normalized x = normalizeUrl u \<and> link_deleted_at x = None)
       (chapterLink st') = Some l"
    by (intro find_only_match [where xs = "chapterLink st"]) simp_all
  with assms(1-4) show "resolve_target env st' data = Inr (Some (link_id l), Some (select_ref l))"
    by (rule resolve_by_url)
qed

theorem resolve_by_url_first_match_witness:
  "resolve_target example_env store_ba example_data
     = Inr (Some ''33333333-3333-4333-8333-333333333333'', Some (select_ref twin_link))
   \<and> resolve_target example_env example_store example_data
     = Inr (Some ''11111111-1111-4111-8111-111111111111'', Some (select_ref example_link))"
proof -
  have u: "target_url example_data = Some ''https://Example.com/ch/1/''"
    by (simp add: example_data_def)
  have n: "''https://Example.com/ch/1/'' \<noteq> []" by simp
  have i: "\<not> truthy (target_link_id example_data)" by (simp add: example_data_def)
  have f: "\<not> store_fails example_env LinkFindFirst" by (simp add: example_env_def)
  have m2: "filter (\<lambda>x. link_url_normalized x = normalizeUrl ''https://Example.com/ch/1/''
                       \<and> link_deleted_at x = None) (chapterLink store_ba)
            = twin_link # [example_link]"
    by (simp add: example_normalized store_ba_def twin_link_def example_link_def)
  have m1: "filter (\<lambda>x. link_url_normalized x = normalizeUrl ''https://Example.com/ch/1/''
                       \<and> link_deleted_at x = None) (chapterLink example_store)
            = example_link # []"
    by (simp add: example_normalized example_store_def example_link_def)
  have t: "link_id twin_link = ''33333333-3333-4333-8333-333333333333''"
    by (simp add: twin_link_def)
  have e: "link_id example_link = ''11111111-1111-4111-8111-111111111111''"
    by (simp add: example_link_def)
  from resolve_by_url_first_match [OF u n i f m2] resolve_by_url_first_match [OF u n i f m1]
  show ?thesis by (simp add: t e)
qed

lemma resolve_by_url_skips_deleted:
  assumes "truthy (target_url data)" and "\<not> truthy (target_link_id data)"
    and "resolve_target env st data = Inr (tid, Some l)"
  shows "\<exists>x\<in>set (chapterLink st). l = select_ref x \<and> link_deleted_at x = None"
proof -
  from assms have "\<exists>n. link_findFirst env st n = Inr (Some l)"
    by (auto simp add: resolve_target_def Let_def split: sum.splits)
  with link_findFirst_found show ?thesis by blast
qed

text \<open>
  Claim C1 says that a submission against a link that is already \<open>removed\<close> changes
  nothing. By URL this holds, since the lookup skips the rows whose \<open>deleted_at\<close> is set
  (\<open>resolve_by_url_skips_deleted\<close>, \<open>repeated_removal_by_url\<close>). By \<open>target_link_id\<close> it
  does not: on \<open>processed_store\<close>, whose link is removed at time 2000 with one audit
  entry, the submission \<open>by_id_request\<close> is answered 201 with \<open>link_removed: true\<close>,
  the deletion time is overwritten with 8000 and a second \<open>dmca_remove\<close> entry is
  appended.
\<close>

theorem repeated_removal_by_id:
  "map link_status (chapterLink processed_store) = [''removed'']
   \<and> map link_deleted_at (chapterLink processed_store) = [Some 2000]
   \<and> length (link_removals processed_store ''11111111-1111-4111-8111-111111111111'') = 1
   \<and> fst (POST second_env Map.empty processed_store by_id_request)
       = submitted ''44444444-4444-4444-8444-444444444444'' True
   \<and> map link_deleted_at
        (chapterLink (snd (snd (POST second_env Map.empty processed_store by_id_request))))
       = [Some 8000]
   \<and> length (link_removals (snd (snd (POST second_env Map.empty processed_store by_id_request)))
        ''11111111-1111-4111-8111-111111111111'') = 2"
proof -
  have 1: "map link_status (chapterLink processed_store) = [''removed'']"
    by code_simp
  have 2: "map link_deleted_at (chapterLink processed_store) = [Some 2000]"
    by code_simp
  have 3: "length (link_removals processed_store ''11111111-1111-4111-8111-111111111111'') = 1"
    by code_simp
  have 4: "fst (POST second_env Map.empty processed_store by_id_request)
       = submitted ''44444444-4444-4444-8444-444444444444'' True"
    by code_simp
  have 5: "map link_deleted_at
        (chapterLink (snd (snd (POST second_env Map.empty processed_store by_id_request))))
       = [Some 8000]"
    by code_simp
  have 6: "length (link_removals (snd (snd (POST second_env Map.empty processed_store by_id_request)))
        ''11111111-1111-4111-8111-111111111111'') = 2"
    by code_simp
  from 1 2 3 4 5 6 show ?thesis by blast
qed

lemma repeated_removal_by_url:
  "fst (POST second_env Map.empty processed_store example_request)
       = submitted ''44444444-4444-4444-8444-444444444444'' False
   \<and> chapterLink (snd (snd (POST second_env Map.empty processed_store example_request)))
       = chapterLink processed_store
   \<and> linkSubmissionAudit (snd (snd (POST second_env Map.empty processed_store example_request)))
       = linkSubmissionAudit processed_store"
proof -
  have 1: "fst (POST second_env Map.empty processed_store example_request)
       = submitted ''44444444-4444-4444-8444-444444444444'' False"
    by code_simp
  have 2: "chapterLink (snd (snd (POST second_env Map.empty processed_store example_request)))
       = chapterLink processed_store"
    by code_simp
  have 3: "linkSubmissionAudit (snd (snd (POST second_env Map.empty processed_store example_request)))
       = linkSubmissionAudit processed_store"
    by code_simp
  from 1 2 3 show ?thesis by blast
qed

end
